theory Spec2Isabelle
  imports Main
begin

section \<open>Strings\<close>

text \<open>
  Python's \<^verbatim>\<open>str\<close> is modelled by \<^typ>\<open>string\<close>; a \<^typ>\<open>char\<close> stands for one
  code point below 256. The three pictographs that \<^verbatim>\<open>get_suggestions\<close> puts in front
  of its messages lie outside that range and are kept as named constants (their UTF-8
  bytes); no property below depends on their length.
\<close>

definition is_space :: "char \<Rightarrow> bool" where
  \<comment> \<open>the code points below 256 for which \<^verbatim>\<open>str.isspace\<close> holds\<close>
  "is_space c = (of_char c \<in> {9, 10, 11, 12, 13, 28, 29, 30, 31, 32, 133, 160 :: nat})"

definition strip :: "string \<Rightarrow> string" where
  \<comment> \<open>\<^verbatim>\<open>str.strip()\<close>\<close>
  "strip s = rev (dropWhile is_space (rev (dropWhile is_space s)))"

fun split_newline :: "string \<Rightarrow> string list" where
  \<comment> \<open>\<^verbatim>\<open>str.split('\n')\<close>: never the empty list\<close>
  "split_newline [] = [[]]"
| "split_newline (c # cs) =
     (if c = CHR 0x0A then [] # split_newline cs
      else (case split_newline cs of
              [] \<Rightarrow> [[c]]
            | l # ls \<Rightarrow> (c # l) # ls))"

definition startswith_hash :: "string \<Rightarrow> bool" where
  \<comment> \<open>\<^verbatim>\<open>s.startswith('#')\<close>\<close>
  "startswith_hash s = (case s of [] \<Rightarrow> False | c # _ \<Rightarrow> c = CHR ''#'')"

definition digit_char :: "nat \<Rightarrow> char" where
  "digit_char d = ''0123456789'' ! d"

fun str_of_nat :: "nat \<Rightarrow> string" where
  "str_of_nat n =
     (if n < 10 then [digit_char n]
      else str_of_nat (n div 10) @ [digit_char (n mod 10)])"

declare str_of_nat.simps [simp del]

definition str_of_int :: "int \<Rightarrow> string" where
  \<comment> \<open>\<^verbatim>\<open>str(n)\<close> for an integer\<close>
  "str_of_int i = (if i < 0 then ''-'' @ str_of_nat (nat (- i)) else str_of_nat (nat i))"

section \<open>Duplicate lines (\<^verbatim>\<open>extract_duplicate_functions\<close>)\<close>

text \<open>
  The rule works on the raw text. Its loop runs over \<^verbatim>\<open>enumerate(lines)\<close> and carries
  the change list and the dictionary \<^verbatim>\<open>seen_lines\<close>.
\<close>

record dup_state =
  dup_changes :: "string list"
  seen_lines :: "string \<rightharpoonup> nat"

definition duplicate_message :: "nat \<Rightarrow> string \<Rightarrow> string" where
  \<comment> \<open>the f-string of the rule, for the 0-based index \<open>i\<close>\<close>
  "duplicate_message i stripped =
     ''Found duplicate code on line '' @ str_of_nat (i + 1) @ '': ''
       @ [CHR 0x27] @ take 40 stripped @ ''...'' @ [CHR 0x27]"

definition duplicate_step :: "nat \<times> string \<Rightarrow> dup_state \<Rightarrow> dup_state" where
  "duplicate_step p st =
     (let i = fst p; stripped = strip (snd p) in
      if stripped \<noteq> [] \<and> \<not> startswith_hash stripped \<and> length stripped > 5 then
        (if stripped \<in> dom (seen_lines st)
         then st\<lparr>dup_changes := dup_changes st @ [duplicate_message i stripped]\<rparr>
         else st\<lparr>seen_lines := (seen_lines st)(stripped \<mapsto> i)\<rparr>)
      else st)"

definition extract_duplicate_functions :: "string \<Rightarrow> string \<times> string list" where
  "extract_duplicate_functions code =
     (let lines = split_newline code;
          st = fold duplicate_step (enumerate 0 lines)
                 \<lparr>dup_changes = [], seen_lines = Map.empty\<rparr>
      in (code, dup_changes st))"

text \<open>The lines the rule looks at, in the words of the specification.\<close>

definition significant :: "string \<Rightarrow> bool" where
  "significant s = (s \<noteq> [] \<and> \<not> startswith_hash s \<and> length s > 5)"

definition dup_indices :: "string list \<Rightarrow> nat list" where
  \<comment> \<open>0-based indices of the significant lines whose trimmed text occurs on an earlier line\<close>
  "dup_indices ls =
     filter (\<lambda>i. significant (strip (ls ! i)) \<and> (\<exists>j<i. strip (ls ! j) = strip (ls ! i)))
       [0..<length ls]"

section \<open>Syntax trees\<close>

text \<open>
  The trees of Python's \<^verbatim>\<open>ast\<close> module, for the fragment the rules and the analyzer
  inspect: functions (positional parameters, no decorators or annotations), assignments,
  conditionals, loops, returns, expression statements and the expressions below. Field
  order is that of \<^verbatim>\<open>_fields\<close>, which is the order \<^verbatim>\<open>generic_visit\<close> and
  \<^verbatim>\<open>iter_child_nodes\<close> follow. Line numbers are kept where the code reads them.
\<close>

datatype expr_context = Load | Store | Del

datatype boolop = And | Or

datatype operator = Add | Sub | Mult | Div | Mod

datatype unaryop = Invert | Not_op | UAdd | USub

datatype cmpop = Eq | NotEq | Lt | LtE | Gt | GtE | Is | IsNot | In | NotIn

datatype const_value = CInt int | CStr string | CBool bool | CNone

datatype expr =
    BoolOp boolop "expr list"
  | BinOp expr operator expr
  | UnaryOp unaryop expr
  | Compare expr "cmpop list" "expr list"
  | Call expr "expr list"
  | Constant const_value
  | Attribute expr string expr_context
  | Name string expr_context
  | Tuple "expr list" expr_context

datatype stmt =
    FunctionDef string "string list" "stmt list" int "int option"
      \<comment> \<open>name, parameter names, body, lineno, end\_lineno\<close>
  | Return "expr option"
  | Assign "expr list" expr int
      \<comment> \<open>targets, value, lineno\<close>
  | AugAssign expr operator expr
  | For expr expr "stmt list" "stmt list"
      \<comment> \<open>target, iter, body, orelse\<close>
  | While expr "stmt list" "stmt list"
  | If_stmt expr "stmt list" "stmt list" int
      \<comment> \<open>test, body, orelse, lineno\<close>
  | Expr expr
  | Pass

datatype module = Module "stmt list"

text \<open>
  \<^verbatim>\<open>ast.parse\<close> and \<^verbatim>\<open>astor.to_source\<close> belong to libraries, not to this program;
  the functions that call them take them as parameters \<open>parse\<close> and \<open>to_source\<close>.
  A failing parse is a value: the exception with its \<^verbatim>\<open>str(e)\<close>.
\<close>

datatype parse_exception = SyntaxError string | OtherException string

fun exception_str :: "parse_exception \<Rightarrow> string" where
  "exception_str (SyntaxError msg) = msg"
| "exception_str (OtherException msg) = msg"

type_synonym parser = "string \<Rightarrow> parse_exception + module"
type_synonym unparser = "module \<Rightarrow> string"

section \<open>\<^verbatim>\<open>VariableRenamer\<close>\<close>

record renamer_state =
  changes_made_vr :: "string list"
  renamed_vars :: "string \<rightharpoonup> string"
  current_function_vars :: "(string \<rightharpoonup> string) option"
    \<comment> \<open>\<open>None\<close>: the attribute does not exist yet\<close>

definition VariableRenamer_init :: renamer_state where
  "VariableRenamer_init =
     \<lparr>changes_made_vr = [], renamed_vars = Map.empty, current_function_vars = None\<rparr>"

definition rename_skip_list :: "string list" where
  "rename_skip_list =
     [''i'', ''j'', ''k'', ''x'', ''y'', ''z'', ''a'', ''b'', ''c'', ''d'', ''m'', ''n'']"

definition renamed_message :: "string \<Rightarrow> string \<Rightarrow> string" where
  "renamed_message old_name new_name =
     ''Renamed variable '' @ [CHR 0x27] @ old_name @ [CHR 0x27] @ '' to ''
       @ [CHR 0x27] @ new_name @ [CHR 0x27]"

text \<open>One round of the loop over \<^verbatim>\<open>node.targets\<close> in \<^verbatim>\<open>visit_Assign\<close>.\<close>

fun rename_target :: "expr \<Rightarrow> renamer_state \<Rightarrow> expr \<times> renamer_state" where
  "rename_target (Name old_name ctx) st =
     (if length old_name = 1 \<and> old_name \<notin> set rename_skip_list then
        (let new_name = ''value_'' @ old_name in
         (Name new_name ctx,
          st\<lparr>renamed_vars := (renamed_vars st)(old_name \<mapsto> new_name),
             changes_made_vr := changes_made_vr st @ [renamed_message old_name new_name]\<rparr>))
      else (Name old_name ctx, st))"
| "rename_target target st = (target, st)"

fun rename_targets :: "expr list \<Rightarrow> renamer_state \<Rightarrow> expr list \<times> renamer_state" where
  "rename_targets [] st = ([], st)"
| "rename_targets (target # targets) st =
     (let (target', st1) = rename_target target st;
          (targets', st2) = rename_targets targets st1
      in (target' # targets', st2))"

text \<open>
  Visiting an expression: \<^verbatim>\<open>visit_Name\<close> on names, \<^verbatim>\<open>generic_visit\<close> elsewhere.
  No expression visit writes to the visitor, so the table is an argument.
\<close>

fun VariableRenamer_visit_expr :: "(string \<rightharpoonup> string) \<Rightarrow> expr \<Rightarrow> expr" where
  "VariableRenamer_visit_expr rv (Name ident ctx) =
     (case rv ident of
        Some new_name \<Rightarrow> if ctx = Load then Name new_name ctx else Name ident ctx
      | None \<Rightarrow> Name ident ctx)"
| "VariableRenamer_visit_expr rv (BoolOp op vals) =
     BoolOp op (map (VariableRenamer_visit_expr rv) vals)"
| "VariableRenamer_visit_expr rv (BinOp l op r) =
     BinOp (VariableRenamer_visit_expr rv l) op (VariableRenamer_visit_expr rv r)"
| "VariableRenamer_visit_expr rv (UnaryOp op operand) =
     UnaryOp op (VariableRenamer_visit_expr rv operand)"
| "VariableRenamer_visit_expr rv (Compare l ops comparators) =
     Compare (VariableRenamer_visit_expr rv l) ops
       (map (VariableRenamer_visit_expr rv) comparators)"
| "VariableRenamer_visit_expr rv (Call func args) =
     Call (VariableRenamer_visit_expr rv func) (map (VariableRenamer_visit_expr rv) args)"
| "VariableRenamer_visit_expr rv (Constant c) = Constant c"
| "VariableRenamer_visit_expr rv (Attribute v attr ctx) =
     Attribute (VariableRenamer_visit_expr rv v) attr ctx"
| "VariableRenamer_visit_expr rv (Tuple elts ctx) =
     Tuple (map (VariableRenamer_visit_expr rv) elts) ctx"

fun VariableRenamer_visit_stmt :: "stmt \<Rightarrow> renamer_state \<Rightarrow> stmt \<times> renamer_state"
  and VariableRenamer_visit_stmts :: "stmt list \<Rightarrow> renamer_state \<Rightarrow> stmt list \<times> renamer_state"
where
  "VariableRenamer_visit_stmt (FunctionDef name args body l el) st =
     (let st1 = st\<lparr>current_function_vars := Some Map.empty\<rparr>;
          (body', st2) = VariableRenamer_visit_stmts body st1
      in (FunctionDef name args body' l el, st2))"
| "VariableRenamer_visit_stmt (Assign targets val l) st =
     (let (targets1, st1) = rename_targets targets st;
          targets2 = map (VariableRenamer_visit_expr (renamed_vars st1)) targets1;
          val' = VariableRenamer_visit_expr (renamed_vars st1) val
      in (Assign targets2 val' l, st1))"
| "VariableRenamer_visit_stmt (Return v) st =
     (Return (map_option (VariableRenamer_visit_expr (renamed_vars st)) v), st)"
| "VariableRenamer_visit_stmt (AugAssign target op val) st =
     (AugAssign (VariableRenamer_visit_expr (renamed_vars st) target) op
        (VariableRenamer_visit_expr (renamed_vars st) val), st)"
| "VariableRenamer_visit_stmt (For target iter body orelse) st =
     (let target' = VariableRenamer_visit_expr (renamed_vars st) target;
          iter' = VariableRenamer_visit_expr (renamed_vars st) iter;
          (body', st1) = VariableRenamer_visit_stmts body st;
          (orelse', st2) = VariableRenamer_visit_stmts orelse st1
      in (For target' iter' body' orelse', st2))"
| "VariableRenamer_visit_stmt (While test body orelse) st =
     (let test' = VariableRenamer_visit_expr (renamed_vars st) test;
          (body', st1) = VariableRenamer_visit_stmts body st;
          (orelse', st2) = VariableRenamer_visit_stmts orelse st1
      in (While test' body' orelse', st2))"
| "VariableRenamer_visit_stmt (If_stmt test body orelse l) st =
     (let test' = VariableRenamer_visit_expr (renamed_vars st) test;
          (body', st1) = VariableRenamer_visit_stmts body st;
          (orelse', st2) = VariableRenamer_visit_stmts orelse st1
      in (If_stmt test' body' orelse' l, st2))"
| "VariableRenamer_visit_stmt (Expr e) st =
     (Expr (VariableRenamer_visit_expr (renamed_vars st) e), st)"
| "VariableRenamer_visit_stmt Pass st = (Pass, st)"
| "VariableRenamer_visit_stmts [] st = ([], st)"
| "VariableRenamer_visit_stmts (s # ss) st =
     (let (s', st1) = VariableRenamer_visit_stmt s st;
          (ss', st2) = VariableRenamer_visit_stmts ss st1
      in (s' # ss', st2))"

fun VariableRenamer_visit :: "module \<Rightarrow> renamer_state \<Rightarrow> module \<times> renamer_state" where
  "VariableRenamer_visit (Module body) st =
     (let (body', st1) = VariableRenamer_visit_stmts body st in (Module body', st1))"

definition rename_tree :: "module \<Rightarrow> module \<times> string list" where
  \<comment> \<open>the middle of \<^verbatim>\<open>rename_unclear_variables\<close>: a fresh visitor run over the tree\<close>
  "rename_tree tree =
     (let (tree', renamer) = VariableRenamer_visit tree VariableRenamer_init
      in (tree', changes_made_vr renamer))"

definition rename_unclear_variables :: "parser \<Rightarrow> unparser \<Rightarrow> string \<Rightarrow> string \<times> string list" where
  "rename_unclear_variables parse to_source code =
     (case parse code of
        Inl e \<Rightarrow> (code, [''Could not rename variables: '' @ exception_str e])
      | Inr tree \<Rightarrow>
          (let (tree', changes) = rename_tree tree in (to_source tree', changes)))"

section \<open>\<^verbatim>\<open>ConditionalSimplifier\<close>\<close>

record simplifier_state =
  changes_made_cs :: "string list"
  conditional_count :: nat
  new_assignments :: "stmt list"

definition ConditionalSimplifier_init :: simplifier_state where
  "ConditionalSimplifier_init =
     \<lparr>changes_made_cs = [], conditional_count = 0, new_assignments = []\<rparr>"

definition extracted_message :: "string \<Rightarrow> string" where
  "extracted_message var_name =
     ''Extracted complex conditional to variable '' @ [CHR 0x27] @ var_name @ [CHR 0x27]"

fun is_complex_BoolOp :: "expr \<Rightarrow> bool" where
  \<comment> \<open>\<^verbatim>\<open>isinstance(node.test, ast.BoolOp) and len(node.test.values) > 2\<close>\<close>
  "is_complex_BoolOp (BoolOp op vals) = (length vals > 2)"
| "is_complex_BoolOp e = False"

text \<open>
  The first half of \<^verbatim>\<open>visit_If\<close>: the test after the check, and the visitor after it.
  The new assignment is only appended to \<^verbatim>\<open>new_assignments\<close> here.
\<close>

definition extract_test :: "expr \<Rightarrow> int \<Rightarrow> simplifier_state \<Rightarrow> expr \<times> simplifier_state" where
  "extract_test test lineno st =
     (if is_complex_BoolOp test then
        (let count = conditional_count st + 1;
             var_name = ''should_execute_'' @ str_of_nat count;
             new_assign = Assign [Name var_name Store] test lineno
         in (Name var_name Load,
             st\<lparr>conditional_count := count,
                new_assignments := new_assignments st @ [new_assign],
                changes_made_cs := changes_made_cs st @ [extracted_message var_name]\<rparr>))
      else (test, st))"

text \<open>
  The class defines no expression visitor, and an expression holds no statement, so
  \<^verbatim>\<open>generic_visit\<close> on an expression changes nothing and is left out.
\<close>

fun ConditionalSimplifier_visit_stmt :: "stmt \<Rightarrow> simplifier_state \<Rightarrow> stmt \<times> simplifier_state"
  and ConditionalSimplifier_visit_stmts ::
    "stmt list \<Rightarrow> simplifier_state \<Rightarrow> stmt list \<times> simplifier_state"
where
  "ConditionalSimplifier_visit_stmt (FunctionDef name args body l el) st =
     (let (original_body, st1) = ConditionalSimplifier_visit_stmts body st
      in if new_assignments st1 \<noteq> [] then
           (FunctionDef name args (new_assignments st1 @ original_body) l el,
            st1\<lparr>new_assignments := []\<rparr>)
         else (FunctionDef name args original_body l el, st1))"
| "ConditionalSimplifier_visit_stmt (If_stmt test body orelse l) st =
     (let (test', st1) = extract_test test l st;
          (body', st2) = ConditionalSimplifier_visit_stmts body st1;
          (orelse', st3) = ConditionalSimplifier_visit_stmts orelse st2
      in (If_stmt test' body' orelse' l, st3))"
| "ConditionalSimplifier_visit_stmt (For target iter body orelse) st =
     (let (body', st1) = ConditionalSimplifier_visit_stmts body st;
          (orelse', st2) = ConditionalSimplifier_visit_stmts orelse st1
      in (For target iter body' orelse', st2))"
| "ConditionalSimplifier_visit_stmt (While test body orelse) st =
     (let (body', st1) = ConditionalSimplifier_visit_stmts body st;
          (orelse', st2) = ConditionalSimplifier_visit_stmts orelse st1
      in (While test body' orelse', st2))"
| "ConditionalSimplifier_visit_stmt (Return v) st = (Return v, st)"
| "ConditionalSimplifier_visit_stmt (Assign targets val l) st = (Assign targets val l, st)"
| "ConditionalSimplifier_visit_stmt (AugAssign target op val) st = (AugAssign target op val, st)"
| "ConditionalSimplifier_visit_stmt (Expr e) st = (Expr e, st)"
| "ConditionalSimplifier_visit_stmt Pass st = (Pass, st)"
| "ConditionalSimplifier_visit_stmts [] st = ([], st)"
| "ConditionalSimplifier_visit_stmts (s # ss) st =
     (let (s', st1) = ConditionalSimplifier_visit_stmt s st;
          (ss', st2) = ConditionalSimplifier_visit_stmts ss st1
      in (s' # ss', st2))"

fun ConditionalSimplifier_visit_Module ::
  "module \<Rightarrow> simplifier_state \<Rightarrow> module \<times> simplifier_state" where
  \<comment> \<open>\<^verbatim>\<open>generic_visit\<close>, then \<^verbatim>\<open>return node\<close>\<close>
  "ConditionalSimplifier_visit_Module (Module body) st =
     (let (body', st1) = ConditionalSimplifier_visit_stmts body st in (Module body', st1))"

definition simplify_tree :: "module \<Rightarrow> module \<times> string list" where
  "simplify_tree tree =
     (let (modified_tree, simplifier) =
            ConditionalSimplifier_visit_Module tree ConditionalSimplifier_init
      in (modified_tree, changes_made_cs simplifier))"

definition simplify_complex_conditionals ::
  "parser \<Rightarrow> unparser \<Rightarrow> string \<Rightarrow> string \<times> string list" where
  "simplify_complex_conditionals parse to_source code =
     (case parse code of
        Inl e \<Rightarrow> (code, [''Could not simplify conditionals: '' @ exception_str e])
      | Inr tree \<Rightarrow>
          (let (modified_tree, changes) = simplify_tree tree
           in (to_source modified_tree, changes)))"

section \<open>\<^verbatim>\<open>MethodExtractor\<close>\<close>

text \<open>
  \<^verbatim>\<open>ast.dump\<close> prints a node without its positions; two statements have the same dump
  exactly when they agree up to line numbers. The dump is modelled by the statement with
  its line number cleared.
\<close>

fun ast_dump :: "stmt \<Rightarrow> stmt" where
  "ast_dump (Assign targets val l) = Assign targets val 0"
| "ast_dump s = s"

fun is_Assign_Expr_Return :: "stmt \<Rightarrow> bool" where
  "is_Assign_Expr_Return (Assign targets val l) = True"
| "is_Assign_Expr_Return (Expr e) = True"
| "is_Assign_Expr_Return (Return v) = True"
| "is_Assign_Expr_Return s = False"

fun has_repeat :: "'a list \<Rightarrow> 'a set \<Rightarrow> bool" where
  \<comment> \<open>the loop over \<^verbatim>\<open>function_body\<close> with \<^verbatim>\<open>seen_lines\<close>: does it reach the \<^verbatim>\<open>break\<close>\<close>
  "has_repeat [] seen = False"
| "has_repeat (line # rest) seen = (if line \<in> seen then True else has_repeat rest (insert line seen))"

definition pattern_message :: "string \<Rightarrow> string" where
  "pattern_message name =
     ''Found duplicate code pattern in function '' @ [CHR 0x27] @ name @ [CHR 0x27]"

fun MethodExtractor_visit_stmt :: "stmt \<Rightarrow> string list \<Rightarrow> string list"
  and MethodExtractor_visit_stmts :: "stmt list \<Rightarrow> string list \<Rightarrow> string list"
where
  "MethodExtractor_visit_stmt (FunctionDef name args body l el) changes =
     (let function_body = map ast_dump (filter is_Assign_Expr_Return body);
          changes1 = (if has_repeat function_body {} then changes @ [pattern_message name]
                      else changes)
      in MethodExtractor_visit_stmts body changes1)"
| "MethodExtractor_visit_stmt (If_stmt test body orelse l) changes =
     MethodExtractor_visit_stmts orelse (MethodExtractor_visit_stmts body changes)"
| "MethodExtractor_visit_stmt (For target iter body orelse) changes =
     MethodExtractor_visit_stmts orelse (MethodExtractor_visit_stmts body changes)"
| "MethodExtractor_visit_stmt (While test body orelse) changes =
     MethodExtractor_visit_stmts orelse (MethodExtractor_visit_stmts body changes)"
| "MethodExtractor_visit_stmt (Return v) changes = changes"
| "MethodExtractor_visit_stmt (Assign targets val l) changes = changes"
| "MethodExtractor_visit_stmt (AugAssign target op val) changes = changes"
| "MethodExtractor_visit_stmt (Expr e) changes = changes"
| "MethodExtractor_visit_stmt Pass changes = changes"
| "MethodExtractor_visit_stmts [] changes = changes"
| "MethodExtractor_visit_stmts (s # ss) changes =
     MethodExtractor_visit_stmts ss (MethodExtractor_visit_stmt s changes)"

fun MethodExtractor_visit :: "module \<Rightarrow> string list" where
  "MethodExtractor_visit (Module body) = MethodExtractor_visit_stmts body []"

definition extract_method :: "parser \<Rightarrow> unparser \<Rightarrow> string \<Rightarrow> string \<times> string list" where
  "extract_method parse to_source code =
     (case parse code of
        Inl e \<Rightarrow> (code, [''Could not extract methods: '' @ exception_str e])
      | Inr tree \<Rightarrow> (to_source tree, MethodExtractor_visit tree))"

section \<open>\<^verbatim>\<open>DeadCodeCleaner\<close>\<close>

record cleaner_state =
  changes_made_dc :: "string list"
  used_vars :: "string set"

definition DeadCodeCleaner_init :: cleaner_state where
  "DeadCodeCleaner_init = \<lparr>changes_made_dc = [], used_vars = {}\<rparr>"

fun DeadCodeCleaner_visit_expr :: "expr \<Rightarrow> cleaner_state \<Rightarrow> cleaner_state" where
  "DeadCodeCleaner_visit_expr (Name ident ctx) st =
     (if ctx = Load then st\<lparr>used_vars := insert ident (used_vars st)\<rparr> else st)"
| "DeadCodeCleaner_visit_expr (BoolOp op vals) st = fold DeadCodeCleaner_visit_expr vals st"
| "DeadCodeCleaner_visit_expr (BinOp l op r) st =
     DeadCodeCleaner_visit_expr r (DeadCodeCleaner_visit_expr l st)"
| "DeadCodeCleaner_visit_expr (UnaryOp op operand) st = DeadCodeCleaner_visit_expr operand st"
| "DeadCodeCleaner_visit_expr (Compare l ops comparators) st =
     fold DeadCodeCleaner_visit_expr comparators (DeadCodeCleaner_visit_expr l st)"
| "DeadCodeCleaner_visit_expr (Call func args) st =
     fold DeadCodeCleaner_visit_expr args (DeadCodeCleaner_visit_expr func st)"
| "DeadCodeCleaner_visit_expr (Constant c) st = st"
| "DeadCodeCleaner_visit_expr (Attribute v attr ctx) st = DeadCodeCleaner_visit_expr v st"
| "DeadCodeCleaner_visit_expr (Tuple elts ctx) st = fold DeadCodeCleaner_visit_expr elts st"

definition unused_message :: "string \<Rightarrow> string" where
  "unused_message ident = ''Found unused variable: '' @ ident"

fun check_target :: "expr \<Rightarrow> cleaner_state \<Rightarrow> cleaner_state" where
  \<comment> \<open>one round of the loop over \<^verbatim>\<open>node.targets\<close> in \<^verbatim>\<open>visit_Assign\<close>\<close>
  "check_target (Name ident ctx) st =
     (if ident \<notin> used_vars st
      then st\<lparr>changes_made_dc := changes_made_dc st @ [unused_message ident]\<rparr>
      else st)"
| "check_target target st = st"

fun DeadCodeCleaner_visit_stmt :: "stmt \<Rightarrow> cleaner_state \<Rightarrow> cleaner_state"
  and DeadCodeCleaner_visit_stmts :: "stmt list \<Rightarrow> cleaner_state \<Rightarrow> cleaner_state"
where
  "DeadCodeCleaner_visit_stmt (Assign targets val l) st =
     DeadCodeCleaner_visit_expr val
       (fold DeadCodeCleaner_visit_expr targets (fold check_target targets st))"
| "DeadCodeCleaner_visit_stmt (FunctionDef name args body l el) st =
     DeadCodeCleaner_visit_stmts body st"
| "DeadCodeCleaner_visit_stmt (Return v) st =
     (case v of None \<Rightarrow> st | Some e \<Rightarrow> DeadCodeCleaner_visit_expr e st)"
| "DeadCodeCleaner_visit_stmt (AugAssign target op val) st =
     DeadCodeCleaner_visit_expr val (DeadCodeCleaner_visit_expr target st)"
| "DeadCodeCleaner_visit_stmt (For target iter body orelse) st =
     DeadCodeCleaner_visit_stmts orelse
       (DeadCodeCleaner_visit_stmts body
          (DeadCodeCleaner_visit_expr iter (DeadCodeCleaner_visit_expr target st)))"
| "DeadCodeCleaner_visit_stmt (While test body orelse) st =
     DeadCodeCleaner_visit_stmts orelse
       (DeadCodeCleaner_visit_stmts body (DeadCodeCleaner_visit_expr test st))"
| "DeadCodeCleaner_visit_stmt (If_stmt test body orelse l) st =
     DeadCodeCleaner_visit_stmts orelse
       (DeadCodeCleaner_visit_stmts body (DeadCodeCleaner_visit_expr test st))"
| "DeadCodeCleaner_visit_stmt (Expr e) st = DeadCodeCleaner_visit_expr e st"
| "DeadCodeCleaner_visit_stmt Pass st = st"
| "DeadCodeCleaner_visit_stmts [] st = st"
| "DeadCodeCleaner_visit_stmts (s # ss) st =
     DeadCodeCleaner_visit_stmts ss (DeadCodeCleaner_visit_stmt s st)"

fun DeadCodeCleaner_visit :: "module \<Rightarrow> cleaner_state \<Rightarrow> cleaner_state" where
  "DeadCodeCleaner_visit (Module body) st = DeadCodeCleaner_visit_stmts body st"

definition dead_code_changes :: "module \<Rightarrow> string list" where
  "dead_code_changes tree = changes_made_dc (DeadCodeCleaner_visit tree DeadCodeCleaner_init)"

definition remove_dead_code :: "parser \<Rightarrow> unparser \<Rightarrow> string \<Rightarrow> string \<times> string list" where
  "remove_dead_code parse to_source code =
     (case parse code of
        Inl e \<Rightarrow> (code, [''Could not remove dead code: '' @ exception_str e])
      | Inr tree \<Rightarrow> (to_source tree, dead_code_changes tree))"

section \<open>\<^verbatim>\<open>CodeAnalyzer\<close>\<close>

text \<open>
  The entries of the three finding lists are dictionaries with fixed keys; they are
  tuples here: (name, lines, line), (name, line, context) and (line, complexity). The
  lists \<^verbatim>\<open>duplicate_code\<close> and \<^verbatim>\<open>code_smells\<close> are created empty and never touched,
  and are left out.
\<close>

type_synonym long_function = "string \<times> int \<times> int"
type_synonym unclear_variable = "string \<times> int \<times> string"
type_synonym complex_conditional = "int \<times> int"

record analysis =
  error :: "string option"
  long_functions :: "long_function list"
  unclear_variables :: "unclear_variable list"
  complex_conditionals :: "complex_conditional list"

record analyzer_state =
  get_analysis :: analysis
  current_function :: "string option"

definition CodeAnalyzer_init :: analyzer_state where
  "CodeAnalyzer_init =
     \<lparr>get_analysis = \<lparr>error = None, long_functions = [], unclear_variables = [],
                       complex_conditionals = []\<rparr>,
      current_function = None\<rparr>"

text \<open>
  \<^verbatim>\<open>ast.iter_child_nodes\<close> yields every field that is a node, operators and contexts
  included, so the children of an expression are nodes of several classes.
\<close>

datatype node =
    ExprNode expr
  | BoolopNode boolop
  | OperatorNode operator
  | UnaryopNode unaryop
  | CmpopNode cmpop
  | ContextNode expr_context

fun iter_child_nodes :: "expr \<Rightarrow> node list" where
  "iter_child_nodes (BoolOp op vals) = BoolopNode op # map ExprNode vals"
| "iter_child_nodes (BinOp l op r) = [ExprNode l, OperatorNode op, ExprNode r]"
| "iter_child_nodes (UnaryOp op operand) = [UnaryopNode op, ExprNode operand]"
| "iter_child_nodes (Compare l ops comparators) =
     ExprNode l # map CmpopNode ops @ map ExprNode comparators"
| "iter_child_nodes (Call func args) = ExprNode func # map ExprNode args"
| "iter_child_nodes (Constant c) = []"
| "iter_child_nodes (Attribute v attr ctx) = [ExprNode v, ContextNode ctx]"
| "iter_child_nodes (Name ident ctx) = [ContextNode ctx]"
| "iter_child_nodes (Tuple elts ctx) = map ExprNode elts @ [ContextNode ctx]"

fun is_BoolOp_or_Compare :: "node \<Rightarrow> bool" where
  \<comment> \<open>\<^verbatim>\<open>isinstance(node, (ast.BoolOp, ast.Compare))\<close>\<close>
  "is_BoolOp_or_Compare (ExprNode (BoolOp op vals)) = True"
| "is_BoolOp_or_Compare (ExprNode (Compare l ops comparators)) = True"
| "is_BoolOp_or_Compare n = False"

fun node_measure :: "node \<Rightarrow> nat" where
  "node_measure (ExprNode e) = Suc (size e)"
| "node_measure n = 0"

fun children :: "node \<Rightarrow> node list" where
  "children (ExprNode e) = iter_child_nodes e"
| "children n = []"

function check_conditional_complexity :: "node \<Rightarrow> int" where
  "check_conditional_complexity n =
     (if is_BoolOp_or_Compare n
      then fold (\<lambda>child count. count + check_conditional_complexity child) (children n) 1
      else 0)"
  by pat_completeness auto
termination
proof (relation "measure node_measure")
  show "wf (measure node_measure)" by simp
next
  fix n c :: node
  assume c: "c \<in> set (children n)"
  have le: "\<And>x xs. x \<in> set xs \<Longrightarrow> size (x::expr) \<le> size_list size xs"
    by (simp add: size_list_estimation')
  have "node_measure c < node_measure n"
  proof (cases n)
    case (ExprNode e)
    show ?thesis
    proof (cases c)
      case d: (ExprNode d)
      with c ExprNode have "ExprNode d \<in> set (iter_child_nodes e)" by simp
      then have "size d < size e"
        by (cases e) (auto dest: le)
      then show ?thesis using d ExprNode by simp
    qed (simp_all add: ExprNode)
  qed (use c in simp_all)
  then show "(c, n) \<in> measure node_measure" by simp
qed

declare check_conditional_complexity.simps [simp del]

definition global_or :: "string option \<Rightarrow> string" where
  \<comment> \<open>\<^verbatim>\<open>self.current_function or "global"\<close>\<close>
  "global_or f = (case f of None \<Rightarrow> ''global'' | Some name \<Rightarrow> if name = [] then ''global'' else name)"

fun check_unclear :: "int \<Rightarrow> expr \<Rightarrow> analyzer_state \<Rightarrow> analyzer_state" where
  \<comment> \<open>one round of the loop over \<^verbatim>\<open>node.targets\<close> in \<^verbatim>\<open>visit_Assign\<close>\<close>
  "check_unclear lineno (Name var_name ctx) st =
     (if length var_name = 1 \<and> var_name \<notin> set [''i'', ''j'', ''k'', ''x'', ''y'', ''z''] then
        st\<lparr>get_analysis := (get_analysis st)
             \<lparr>unclear_variables := unclear_variables (get_analysis st)
                @ [(var_name, lineno, global_or (current_function st))]\<rparr>\<rparr>
      else st)"
| "check_unclear lineno target st = st"

definition function_lines :: "int \<Rightarrow> int option \<Rightarrow> int" where
  \<comment> \<open>\<^verbatim>\<open>node.end_lineno - node.lineno if node.end_lineno else 0\<close>\<close>
  "function_lines lineno end_lineno =
     (case end_lineno of None \<Rightarrow> 0 | Some e \<Rightarrow> if e \<noteq> 0 then e - lineno else 0)"

text \<open>
  The analyzer defines no expression visitor either; \<^verbatim>\<open>generic_visit\<close> on the
  expressions of a statement finds no statement and is left out.
\<close>

fun CodeAnalyzer_visit_stmt :: "stmt \<Rightarrow> analyzer_state \<Rightarrow> analyzer_state"
  and CodeAnalyzer_visit_stmts :: "stmt list \<Rightarrow> analyzer_state \<Rightarrow> analyzer_state"
where
  "CodeAnalyzer_visit_stmt (FunctionDef name args body l el) st =
     (let old_function = current_function st;
          st1 = st\<lparr>current_function := Some name\<rparr>;
          st2 = (if function_lines l el > 15 then
                   st1\<lparr>get_analysis := (get_analysis st1)
                        \<lparr>long_functions := long_functions (get_analysis st1)
                           @ [(name, function_lines l el, l)]\<rparr>\<rparr>
                 else st1);
          st3 = CodeAnalyzer_visit_stmts body st2
      in st3\<lparr>current_function := old_function\<rparr>)"
| "CodeAnalyzer_visit_stmt (Assign targets val l) st = fold (check_unclear l) targets st"
| "CodeAnalyzer_visit_stmt (If_stmt test body orelse l) st =
     (let complexity = check_conditional_complexity (ExprNode test);
          st1 = (if complexity > 2 then
                   st\<lparr>get_analysis := (get_analysis st)
                       \<lparr>complex_conditionals := complex_conditionals (get_analysis st)
                          @ [(l, complexity)]\<rparr>\<rparr>
                 else st)
      in CodeAnalyzer_visit_stmts orelse (CodeAnalyzer_visit_stmts body st1))"
| "CodeAnalyzer_visit_stmt (For target iter body orelse) st =
     CodeAnalyzer_visit_stmts orelse (CodeAnalyzer_visit_stmts body st)"
| "CodeAnalyzer_visit_stmt (While test body orelse) st =
     CodeAnalyzer_visit_stmts orelse (CodeAnalyzer_visit_stmts body st)"
| "CodeAnalyzer_visit_stmt (Return v) st = st"
| "CodeAnalyzer_visit_stmt (AugAssign target op val) st = st"
| "CodeAnalyzer_visit_stmt (Expr e) st = st"
| "CodeAnalyzer_visit_stmt Pass st = st"
| "CodeAnalyzer_visit_stmts [] st = st"
| "CodeAnalyzer_visit_stmts (s # ss) st =
     CodeAnalyzer_visit_stmts ss (CodeAnalyzer_visit_stmt s st)"

fun CodeAnalyzer_visit :: "module \<Rightarrow> analyzer_state \<Rightarrow> analyzer_state" where
  "CodeAnalyzer_visit (Module body) st = CodeAnalyzer_visit_stmts body st"

definition error_analysis :: "string \<Rightarrow> analysis" where
  "error_analysis msg =
     \<lparr>error = Some msg, long_functions = [], unclear_variables = [], complex_conditionals = []\<rparr>"

definition analyze_code :: "parser \<Rightarrow> string \<Rightarrow> analysis" where
  "analyze_code parse code =
     (case parse code of
        Inr tree \<Rightarrow> get_analysis (CodeAnalyzer_visit tree CodeAnalyzer_init)
      | Inl (SyntaxError msg) \<Rightarrow> error_analysis (''Syntax error: '' @ msg)
      | Inl (OtherException msg) \<Rightarrow> error_analysis (''Analysis error: '' @ msg))"

subsection \<open>\<^verbatim>\<open>get_suggestions\<close>\<close>

definition cross_mark :: string where
  \<comment> \<open>U+274C\<close>
  "cross_mark = [CHR 0xE2, CHR 0x9D, CHR 0x8C]"

definition ruler_mark :: string where
  \<comment> \<open>U+1F4CF\<close>
  "ruler_mark = [CHR 0xF0, CHR 0x9F, CHR 0x93, CHR 0x8F]"

definition letters_mark :: string where
  \<comment> \<open>U+1F524\<close>
  "letters_mark = [CHR 0xF0, CHR 0x9F, CHR 0x94, CHR 0xA4]"

definition shuffle_mark :: string where
  \<comment> \<open>U+1F500\<close>
  "shuffle_mark = [CHR 0xF0, CHR 0x9F, CHR 0x94, CHR 0x80]"

definition check_mark :: string where
  \<comment> \<open>U+2705\<close>
  "check_mark = [CHR 0xE2, CHR 0x9C, CHR 0x85]"

definition long_function_suggestion :: "long_function \<Rightarrow> string" where
  "long_function_suggestion long_func =
     (case long_func of (name, lines, line) \<Rightarrow>
        ruler_mark @ '' Function '' @ [CHR 0x27] @ name @ [CHR 0x27] @ '' is '' @ str_of_int lines
          @ '' lines long. Consider breaking it into smaller functions.'')"

definition unclear_variable_suggestion :: "unclear_variable \<Rightarrow> string" where
  "unclear_variable_suggestion var =
     (case var of (name, line, context) \<Rightarrow>
        letters_mark @ '' Variable '' @ [CHR 0x27] @ name @ [CHR 0x27]
          @ '' has an unclear name. Use more descriptive names.'')"

definition complex_conditional_suggestion :: "complex_conditional \<Rightarrow> string" where
  "complex_conditional_suggestion conditional =
     (case conditional of (line, complexity) \<Rightarrow>
        shuffle_mark @ '' Complex conditional on line '' @ str_of_int line
          @ ''. Consider extracting to a well-named function or variable.'')"

definition get_suggestions :: "analysis \<Rightarrow> string list" where
  "get_suggestions a =
     (case error a of
        Some msg \<Rightarrow> [cross_mark @ '' '' @ msg]
      | None \<Rightarrow>
          (let suggestions =
                 map long_function_suggestion (long_functions a)
                 @ map unclear_variable_suggestion (unclear_variables a)
                 @ map complex_conditional_suggestion (complex_conditionals a)
           in if suggestions = []
              then [check_mark @ '' Code looks good! No major issues found.'']
              else suggestions))"

section \<open>The request handler (\<^verbatim>\<open>refactor_code\<close>)\<close>

record RefactorResponse =
  original_code :: string
  refactored_code :: string
  changes_made :: "string list"
  suggestions :: "string list"

text \<open>
  Every rule catches its own exceptions and the analysis catches the parser's, so the
  handler's own \<^verbatim>\<open>except\<close> branch is never entered and the handler returns a response.
  Each \<^verbatim>\<open>if\<close> of the handler is one line of the \<open>let\<close> below; the pair carried along
  is (\<^verbatim>\<open>refactored_code\<close>, \<^verbatim>\<open>changes\<close>).
\<close>

definition run_if ::
  "bool \<Rightarrow> (string \<Rightarrow> string \<times> string list) \<Rightarrow> string \<times> string list \<Rightarrow> string \<times> string list" where
  \<comment> \<open>\<^verbatim>\<open>if ...: refactored_code, cs = rule(refactored_code); changes.extend(cs)\<close>\<close>
  "run_if selected rule p =
     (if selected then (let (code', cs) = rule (fst p) in (code', snd p @ cs)) else p)"

definition apply_selected_rules ::
  "parser \<Rightarrow> unparser \<Rightarrow> string list \<Rightarrow> string \<Rightarrow> string \<times> string list" where
  "apply_selected_rules parse to_source refactor_options code =
     (let p0 = (code, []);
          p1 = run_if (''rename_variables'' \<in> set refactor_options)
                 (rename_unclear_variables parse to_source) p0;
          p2 = run_if (''extract_duplicate'' \<in> set refactor_options)
                 extract_duplicate_functions p1;
          p3 = run_if (''simplify_conditionals'' \<in> set refactor_options)
                 (simplify_complex_conditionals parse to_source) p2;
          p4 = run_if (''extract_method'' \<in> set refactor_options)
                 (extract_method parse to_source) p3;
          p5 = run_if (''remove_dead_code'' \<in> set refactor_options)
                 (remove_dead_code parse to_source) p4
      in p5)"

definition refactor_code :: "parser \<Rightarrow> unparser \<Rightarrow> string \<Rightarrow> string list \<Rightarrow> RefactorResponse" where
  "refactor_code parse to_source code refactor_options =
     (let a = analyze_code parse code;
          (refactored, changes) = apply_selected_rules parse to_source refactor_options code
      in \<lparr>original_code = code, refactored_code = refactored, changes_made = changes,
          suggestions = get_suggestions a\<rparr>)"

section \<open>The specification's notions\<close>

text \<open>The rule engine as the specification words it: the caller's list, in the caller's order.\<close>

definition rule_of :: "parser \<Rightarrow> unparser \<Rightarrow> string \<Rightarrow> (string \<Rightarrow> string \<times> string list) option" where
  "rule_of parse to_source rule_id =
     (if rule_id = ''rename_variables'' then Some (rename_unclear_variables parse to_source)
      else if rule_id = ''extract_duplicate'' then Some extract_duplicate_functions
      else if rule_id = ''simplify_conditionals'' then Some (simplify_complex_conditionals parse to_source)
      else if rule_id = ''extract_method'' then Some (extract_method parse to_source)
      else if rule_id = ''remove_dead_code'' then Some (remove_dead_code parse to_source)
      else None)"

definition apply_rule ::
  "parser \<Rightarrow> unparser \<Rightarrow> string \<Rightarrow> string \<times> string list \<Rightarrow> string \<times> string list" where
  "apply_rule parse to_source rule_id p =
     (case rule_of parse to_source rule_id of
        None \<Rightarrow> p
      | Some rule \<Rightarrow> run_if True rule p)"

definition apply_in_order ::
  "parser \<Rightarrow> unparser \<Rightarrow> string list \<Rightarrow> string \<Rightarrow> string \<times> string list" where
  "apply_in_order parse to_source rule_ids code = fold (apply_rule parse to_source) rule_ids (code, [])"

definition internal_order :: "string list" where
  "internal_order =
     [''rename_variables'', ''extract_duplicate'', ''simplify_conditionals'',
      ''extract_method'', ''remove_dead_code'']"

text \<open>
  The complexity score as the specification words it: a boolean operator or a comparison
  counts one plus the scores of its children, anything else counts nothing.
\<close>

fun complexity_score :: "expr \<Rightarrow> int" where
  "complexity_score (BoolOp op vals) = 1 + sum_list (map complexity_score vals)"
| "complexity_score (Compare l ops comparators) =
     1 + complexity_score l + sum_list (map complexity_score comparators)"
| "complexity_score e = 0"

text \<open>Every \<^verbatim>\<open>if\<close> statement of a body, in pre-order, as (line, test).\<close>

fun if_statements :: "stmt \<Rightarrow> (int \<times> expr) list"
  and if_statements_list :: "stmt list \<Rightarrow> (int \<times> expr) list"
where
  "if_statements (If_stmt test body orelse l) =
     (l, test) # if_statements_list body @ if_statements_list orelse"
| "if_statements (FunctionDef name args body l el) = if_statements_list body"
| "if_statements (For target iter body orelse) =
     if_statements_list body @ if_statements_list orelse"
| "if_statements (While test body orelse) =
     if_statements_list body @ if_statements_list orelse"
| "if_statements (Return v) = []"
| "if_statements (Assign targets val l) = []"
| "if_statements (AugAssign target op val) = []"
| "if_statements (Expr e) = []"
| "if_statements Pass = []"
| "if_statements_list [] = []"
| "if_statements_list (s # ss) = if_statements s @ if_statements_list ss"

text \<open>
  The names the rename rule acts on, and the trees it has nothing left to do on: no
  assignment has a bare name as target that the rule would rename.
\<close>

definition renameable :: "string \<Rightarrow> bool" where
  "renameable x = (length x = 1 \<and> x \<notin> set rename_skip_list)"

fun settled_target :: "expr \<Rightarrow> bool" where
  "settled_target (Name x ctx) = (\<not> renameable x)"
| "settled_target e = True"

fun settled :: "stmt \<Rightarrow> bool" and settled_list :: "stmt list \<Rightarrow> bool" where
  "settled (Assign targets val l) = list_all settled_target targets"
| "settled (FunctionDef name args body l el) = settled_list body"
| "settled (For target iter body orelse) = (settled_list body \<and> settled_list orelse)"
| "settled (While test body orelse) = (settled_list body \<and> settled_list orelse)"
| "settled (If_stmt test body orelse l) = (settled_list body \<and> settled_list orelse)"
| "settled (Return v) = True"
| "settled (AugAssign target op val) = True"
| "settled (Expr e) = True"
| "settled Pass = True"
| "settled_list [] = True"
| "settled_list (s # ss) = (settled s \<and> settled_list ss)"

text \<open>The rename table only ever holds names the rule acts on.\<close>

definition table_ok :: "renamer_state \<Rightarrow> bool" where
  "table_ok st = (dom (renamed_vars st) \<subseteq> {x. renameable x})"

text \<open>The findings the specification asks for, from the \<^verbatim>\<open>if\<close> statements of a body.\<close>

definition findings_of :: "(int \<times> expr) list \<Rightarrow> complex_conditional list" where
  "findings_of ifs = map (\<lambda>p. (fst p, complexity_score (snd p)))
                        (filter (\<lambda>p. complexity_score (snd p) > 2) ifs)"

text \<open>
  For the closed examples below: what \<^verbatim>\<open>ast.parse\<close> and \<^verbatim>\<open>astor.to_source\<close> return on
  the texts \<open>q = 1\<close> and \<open>value_q = 1\<close> and their trees. Any other text stands for a
  malformed one here and is rejected.
\<close>

definition tree_q :: module where
  "tree_q = Module [Assign [Name ''q'' Store] (Constant (CInt 1)) 1]"

definition tree_value_q :: module where
  "tree_value_q = Module [Assign [Name ''value_q'' Store] (Constant (CInt 1)) 1]"

definition sample_parse :: parser where
  "sample_parse s =
     (if s = ''q = 1'' \<or> s = ''q = 1\<newline>'' then Inr tree_q
      else if s = ''value_q = 1\<newline>'' then Inr tree_value_q
      else Inl (SyntaxError ''invalid syntax''))"

definition sample_to_source :: unparser where
  "sample_to_source t =
     (if t = tree_q then ''q = 1\<newline>''
      else if t = tree_value_q then ''value_q = 1\<newline>''
      else [])"

text \<open>The identifiers an expression reads, and tables whose new names are not one character long.\<close>

fun load_names :: "expr \<Rightarrow> string set" where
  "load_names (Name ident ctx) = (if ctx = Load then {ident} else {})"
| "load_names (BoolOp op vals) = \<Union> (set (map load_names vals))"
| "load_names (BinOp l op r) = load_names l \<union> load_names r"
| "load_names (UnaryOp op operand) = load_names operand"
| "load_names (Compare l ops comparators) = load_names l \<union> \<Union> (set (map load_names comparators))"
| "load_names (Call func args) = load_names func \<union> \<Union> (set (map load_names args))"
| "load_names (Constant c) = {}"
| "load_names (Attribute v attr ctx) = load_names v"
| "load_names (Tuple elts ctx) = \<Union> (set (map load_names elts))"

definition prefixed_table :: "(string \<rightharpoonup> string) \<Rightarrow> bool" where
  "prefixed_table rv = (ran rv \<subseteq> {n. length n \<noteq> 1})"

text \<open>
  A tree without its source positions. The specification's serializer contract is
  stated up to positions: parsing a serialized tree gives the tree back with, in general,
  other line numbers.
\<close>

fun erase_lines :: "stmt \<Rightarrow> stmt" and erase_lines_list :: "stmt list \<Rightarrow> stmt list" where
  "erase_lines (FunctionDef name args body l el) = FunctionDef name args (erase_lines_list body) 0 None"
| "erase_lines (Assign targets val l) = Assign targets val 0"
| "erase_lines (If_stmt test body orelse l) =
     If_stmt test (erase_lines_list body) (erase_lines_list orelse) 0"
| "erase_lines (For target iter body orelse) =
     For target iter (erase_lines_list body) (erase_lines_list orelse)"
| "erase_lines (While test body orelse) =
     While test (erase_lines_list body) (erase_lines_list orelse)"
| "erase_lines (Return v) = Return v"
| "erase_lines (AugAssign target op val) = AugAssign target op val"
| "erase_lines (Expr e) = Expr e"
| "erase_lines Pass = Pass"
| "erase_lines_list [] = []"
| "erase_lines_list (s # ss) = erase_lines s # erase_lines_list ss"

fun erase_positions :: "module \<Rightarrow> module" where
  "erase_positions (Module body) = Module (erase_lines_list body)"

text \<open>
  For the examples on renaming twice: what \<^verbatim>\<open>ast.parse\<close> and \<^verbatim>\<open>astor.to_source\<close>
  return on three texts. The serializer prints a tuple that is the test of an \<^verbatim>\<open>if\<close>
  without its parentheses, and the parser rejects that text.
\<close>

definition example_parse :: parser where
  "example_parse s =
     (if s = ''\<newline>q = 1'' then Inr (Module [Assign [Name ''q'' Store] (Constant (CInt 1)) 2])
      else if s = ''value_q = 1\<newline>''
        then Inr (Module [Assign [Name ''value_q'' Store] (Constant (CInt 1)) 1])
      else if s = ''q = 1\<newline>if (q, 2):\<newline>    pass''
        then Inr (Module [Assign [Name ''q'' Store] (Constant (CInt 1)) 1,
                          If_stmt (Tuple [Name ''q'' Load, Constant (CInt 2)] Load) [Pass] [] 2])
      else Inl (SyntaxError ''invalid syntax (<unknown>, line 2)''))"

definition example_to_source :: unparser where
  "example_to_source t =
     (if erase_positions t = Module [Assign [Name ''value_q'' Store] (Constant (CInt 1)) 0]
        then ''value_q = 1\<newline>''
      else if erase_positions t =
          Module [Assign [Name ''value_q'' Store] (Constant (CInt 1)) 0,
                  If_stmt (Tuple [Name ''value_q'' Load, Constant (CInt 2)] Load) [Pass] [] 0]
        then ''value_q = 1\<newline>if value_q, 2:\<newline>    pass\<newline>''
      else [])"

section \<open>Duplicate lines: what the rule reports\<close>

lemma dup_filter_prefix:
  "filter (\<lambda>i. significant (strip ((xs @ [x]) ! i)) \<and>
               (\<exists>j<i. strip ((xs @ [x]) ! j) = strip ((xs @ [x]) ! i))) [0..<length xs]
   = filter (\<lambda>i. significant (strip (xs ! i)) \<and> (\<exists>j<i. strip (xs ! j) = strip (xs ! i)))
       [0..<length xs]"
proof (rule filter_cong[OF refl])
  fix i assume "i \<in> set [0..<length xs]"
  then have i: "i < length xs" by simp
  then have "\<And>j. j < i \<Longrightarrow> (xs @ [x]) ! j = xs ! j" by (simp add: nth_append)
  then have "(\<exists>j<i. strip ((xs @ [x]) ! j) = strip (xs ! i)) = (\<exists>j<i. strip (xs ! j) = strip (xs ! i))"
    by metis
  with i show "(significant (strip ((xs @ [x]) ! i)) \<and>
                (\<exists>j<i. strip ((xs @ [x]) ! j) = strip ((xs @ [x]) ! i)))
     = (significant (strip (xs ! i)) \<and> (\<exists>j<i. strip (xs ! j) = strip (xs ! i)))"
    by (simp add: nth_append)
qed

lemma earlier_line_iff:
  "(\<exists>j<length xs. strip ((xs @ [x]) ! j) = strip x) \<longleftrightarrow> strip x \<in> strip ` set xs"
proof
  assume "\<exists>j<length xs. strip ((xs @ [x]) ! j) = strip x"
  then obtain j where "j < length xs" "strip (xs ! j) = strip x" by (auto simp: nth_append)
  then show "strip x \<in> strip ` set xs" by (metis imageI nth_mem)
next
  assume "strip x \<in> strip ` set xs"
  then obtain y where y: "y \<in> set xs" "strip y = strip x" by auto
  then obtain j where "j < length xs" "xs ! j = y" by (auto simp: in_set_conv_nth)
  with y show "\<exists>j<length xs. strip ((xs @ [x]) ! j) = strip x"
    by (auto simp: nth_append)
qed

lemma dup_indices_snoc:
  "dup_indices (xs @ [x]) = dup_indices xs @
     (if significant (strip x) \<and> strip x \<in> strip ` set xs then [length xs] else [])"
  by (simp add: dup_indices_def dup_filter_prefix earlier_line_iff)

lemma dup_indices_bound: "i \<in> set (dup_indices xs) \<Longrightarrow> i < length xs"
  by (simp add: dup_indices_def)

lemma duplicate_step_seen:
  "dom (seen_lines (duplicate_step (i, x) st)) =
     (if significant (strip x) then insert (strip x) (dom (seen_lines st)) else dom (seen_lines st))"
  by (auto simp: duplicate_step_def Let_def significant_def)

lemma duplicate_step_changes:
  "dup_changes (duplicate_step (i, x) st) =
     dup_changes st @ (if significant (strip x) \<and> strip x \<in> dom (seen_lines st)
                       then [duplicate_message i (strip x)] else [])"
  by (simp add: duplicate_step_def Let_def significant_def)

lemma fold_duplicate_step:
  "dom (seen_lines (fold duplicate_step (enumerate 0 ls) \<lparr>dup_changes = [], seen_lines = Map.empty\<rparr>))
      = {s \<in> strip ` set ls. significant s}
   \<and> dup_changes (fold duplicate_step (enumerate 0 ls) \<lparr>dup_changes = [], seen_lines = Map.empty\<rparr>)
      = map (\<lambda>i. duplicate_message i (strip (ls ! i))) (dup_indices ls)"
proof (induction ls rule: rev_induct)
  case Nil
  show ?case by (simp add: dup_indices_def)
next
  case (snoc x xs)
  let ?st = "fold duplicate_step (enumerate 0 xs) \<lparr>dup_changes = [], seen_lines = Map.empty\<rparr>"
  have m: "map (\<lambda>i. duplicate_message i (strip ((xs @ [x]) ! i))) (dup_indices xs)
         = map (\<lambda>i. duplicate_message i (strip (xs ! i))) (dup_indices xs)"
    by (rule map_cong[OF refl]) (simp add: dup_indices_bound nth_append)
  have f: "fold duplicate_step (enumerate 0 (xs @ [x])) \<lparr>dup_changes = [], seen_lines = Map.empty\<rparr>
         = duplicate_step (length xs, x) ?st"
    by (simp add: enumerate_append_eq)
  have d: "dom (seen_lines ?st) = {s \<in> strip ` set xs. significant s}"
    and c: "dup_changes ?st = map (\<lambda>i. duplicate_message i (strip (xs ! i))) (dup_indices xs)"
    using snoc by simp_all
  have "dom (seen_lines (duplicate_step (length xs, x) ?st)) = {s \<in> strip ` set (xs @ [x]). significant s}"
    unfolding duplicate_step_seen d by auto
  moreover have "dup_changes (duplicate_step (length xs, x) ?st)
      = map (\<lambda>i. duplicate_message i (strip ((xs @ [x]) ! i))) (dup_indices (xs @ [x]))"
    unfolding duplicate_step_changes d c dup_indices_snoc by (simp add: m)
  ultimately show ?case unfolding f by simp
qed

lemma filter_upt_single:
  assumes j: "j < n" and pj: "P j" and u: "\<And>k. k < n \<Longrightarrow> P k \<Longrightarrow> k = j"
  shows "filter P [0..<n] = [j]"
proof -
  have split: "[0..<n] = [0..<j] @ j # [Suc j..<n]"
    using j upt_add_eq_append[of 0 j "n - j"] by (simp add: upt_conv_Cons)
  have "filter P [0..<n] = filter (\<lambda>k. k = j) [0..<n]"
    by (rule filter_cong[OF refl]) (use pj u in auto)
  also have "\<dots> = [j]"
    unfolding split by (auto simp: filter_empty_conv)
  finally show ?thesis .
qed

text \<open>
  C6. \<^verbatim>\<open>extract_duplicate_functions\<close> returns the text it was given. Its changes are,
  in line order, one message for every line whose trimmed text is significant (not blank,
  not starting with \<open>#\<close>, longer than 5 characters) and occurs on an earlier line; the
  message names the 1-based line number and the first 40 characters of the trimmed text.
  When \<open>result = compute(x, y)\<close> stands on lines \<open>i < j\<close> and no other significant line
  repeats, the only change is the one for line \<open>j + 1\<close>.
\<close>

theorem extract_duplicate_functions_spec:
  "fst (extract_duplicate_functions code) = code \<and>
   snd (extract_duplicate_functions code) =
     map (\<lambda>i. ''Found duplicate code on line '' @ str_of_nat (i + 1) @ '': ''
                 @ [CHR 0x27] @ take 40 (strip (split_newline code ! i)) @ ''...'' @ [CHR 0x27])
       (filter (\<lambda>i. significant (strip (split_newline code ! i)) \<and>
                     (\<exists>j<i. strip (split_newline code ! j) = strip (split_newline code ! i)))
          [0..<length (split_newline code)]) \<and>
   (i < j \<and> j < length (split_newline code) \<and>
    strip (split_newline code ! i) = ''result = compute(x, y)'' \<and>
    strip (split_newline code ! j) = ''result = compute(x, y)'' \<and>
    (\<forall>k<length (split_newline code). \<forall>k'<k.
        significant (strip (split_newline code ! k)) \<and>
        strip (split_newline code ! k') = strip (split_newline code ! k) \<longrightarrow> k' = i \<and> k = j)
    \<longrightarrow> snd (extract_duplicate_functions code) =
          [''Found duplicate code on line '' @ str_of_nat (j + 1) @ '': ''
             @ [CHR 0x27] @ ''result = compute(x, y)...'' @ [CHR 0x27]])"
proof -
  let ?ls = "split_newline code"
  let ?P = "\<lambda>i. significant (strip (?ls ! i)) \<and> (\<exists>j<i. strip (?ls ! j) = strip (?ls ! i))"
  have ch: "snd (extract_duplicate_functions code) =
      map (\<lambda>i. duplicate_message i (strip (?ls ! i))) (filter ?P [0..<length ?ls])"
    using fold_duplicate_step[of ?ls]
    by (simp add: extract_duplicate_functions_def Let_def dup_indices_def)
  have one: "snd (extract_duplicate_functions code) =
          [''Found duplicate code on line '' @ str_of_nat (j + 1) @ '': ''
             @ [CHR 0x27] @ ''result = compute(x, y)...'' @ [CHR 0x27]]"
    if h: "i < j" "j < length ?ls" "strip (?ls ! i) = ''result = compute(x, y)''"
       "strip (?ls ! j) = ''result = compute(x, y)''"
       "\<forall>k<length ?ls. \<forall>k'<k. significant (strip (?ls ! k)) \<and> strip (?ls ! k') = strip (?ls ! k)
           \<longrightarrow> k' = i \<and> k = j"
  proof -
    have pj: "?P j" using h(1,3,4) by (auto simp: significant_def startswith_hash_def)
    have fj: "filter ?P [0..<length ?ls] = [j]"
      using filter_upt_single[of j "length ?ls" ?P] h(2) pj h(5) by blast
    show ?thesis
      unfolding ch fj by (simp add: duplicate_message_def h(4))
  qed
  show ?thesis
  proof (intro conjI impI)
    show "fst (extract_duplicate_functions code) = code"
      by (simp add: extract_duplicate_functions_def Let_def)
    show "snd (extract_duplicate_functions code) =
     map (\<lambda>i. ''Found duplicate code on line '' @ str_of_nat (i + 1) @ '': ''
                 @ [CHR 0x27] @ take 40 (strip (split_newline code ! i)) @ ''...'' @ [CHR 0x27])
       (filter ?P [0..<length (split_newline code)])"
      unfolding ch duplicate_message_def ..
  next
    assume "i < j \<and> j < length (split_newline code) \<and>
      strip (split_newline code ! i) = ''result = compute(x, y)'' \<and>
      strip (split_newline code ! j) = ''result = compute(x, y)'' \<and>
      (\<forall>k<length (split_newline code). \<forall>k'<k.
        significant (strip (split_newline code ! k)) \<and>
        strip (split_newline code ! k') = strip (split_newline code ! k) \<longrightarrow> k' = i \<and> k = j)"
    then show "snd (extract_duplicate_functions code) =
          [''Found duplicate code on line '' @ str_of_nat (j + 1) @ '': ''
             @ [CHR 0x27] @ ''result = compute(x, y)...'' @ [CHR 0x27]]"
      using one by blast
  qed
qed

theorem extract_duplicate_functions_spec_witness:
  "split_newline ''result = compute(x, y)\<newline>print(result)\<newline>result = compute(x, y)''
     = [''result = compute(x, y)'', ''print(result)'', ''result = compute(x, y)''] \<and>
   extract_duplicate_functions
     ''result = compute(x, y)\<newline>print(result)\<newline>result = compute(x, y)''
   = (''result = compute(x, y)\<newline>print(result)\<newline>result = compute(x, y)'',
      [''Found duplicate code on line 3: '' @ [CHR 0x27] @ ''result = compute(x, y)...'' @ [CHR 0x27]])"
proof -
  let ?c = "''result = compute(x, y)\<newline>print(result)\<newline>result = compute(x, y)''"
  let ?ls = "[''result = compute(x, y)'', ''print(result)'', ''result = compute(x, y)'']"
  have sp: "split_newline ?c = ?ls"
    by simp
  have st1: "strip ''result = compute(x, y)'' = ''result = compute(x, y)''"
    by (simp add: strip_def is_space_def)
  have st2: "strip ''print(result)'' = ''print(result)''"
    by (simp add: strip_def is_space_def)
  have sn: "str_of_nat (2 + 1) = ''3''"
    by (simp add: str_of_nat.simps digit_char_def)
  have u: "\<forall>k<length ?ls. \<forall>k'<k.
        significant (strip (?ls ! k)) \<and> strip (?ls ! k') = strip (?ls ! k) \<longrightarrow> k' = 0 \<and> k = 2"
  proof (intro allI impI)
    fix k k' :: nat
    assume k: "k < length ?ls" and k': "k' < k"
      and e: "significant (strip (?ls ! k)) \<and> strip (?ls ! k') = strip (?ls ! k)"
    from k k' consider "k = 1 \<and> k' = 0" | "k = 2 \<and> k' = 0" | "k = 2 \<and> k' = 1"
      by (simp add: less_Suc_eq numeral_3_eq_3 numeral_2_eq_2) arith
    then show "k' = 0 \<and> k = 2"
      using e by cases (simp_all add: st1 st2)
  qed
  have h: "(0::nat) < 2 \<and> 2 < length (split_newline ?c) \<and>
      strip (split_newline ?c ! 0) = ''result = compute(x, y)'' \<and>
      strip (split_newline ?c ! 2) = ''result = compute(x, y)'' \<and>
      (\<forall>k<length (split_newline ?c). \<forall>k'<k.
        significant (strip (split_newline ?c ! k)) \<and>
        strip (split_newline ?c ! k') = strip (split_newline ?c ! k) \<longrightarrow> k' = 0 \<and> k = 2)"
    unfolding sp using u by (simp add: st1)
  have "fst (extract_duplicate_functions ?c) = ?c"
    and "snd (extract_duplicate_functions ?c) =
      [''Found duplicate code on line '' @ str_of_nat (2 + 1) @ '': ''
             @ [CHR 0x27] @ ''result = compute(x, y)...'' @ [CHR 0x27]]"
    using extract_duplicate_functions_spec[of ?c 0 2] h by blast+
  then show ?thesis
    unfolding sn by (simp add: prod_eq_iff sp)
qed

section \<open>Renaming twice\<close>

lemma visit_expr_empty: "VariableRenamer_visit_expr Map.empty e = e"
  by (induction e) (auto simp: map_idI)

lemma rename_target_settled: "settled_target t \<Longrightarrow> rename_target t st = (t, st)"
  by (cases t) (auto simp: renameable_def)

lemma rename_targets_settled: "list_all settled_target ts \<Longrightarrow> rename_targets ts st = (ts, st)"
  by (induction ts arbitrary: st) (auto simp: rename_target_settled)

lemma visit_settled:
  "settled s \<Longrightarrow> renamed_vars st = Map.empty \<Longrightarrow>
     fst (VariableRenamer_visit_stmt s st) = s \<and>
     renamed_vars (snd (VariableRenamer_visit_stmt s st)) = Map.empty \<and>
     changes_made_vr (snd (VariableRenamer_visit_stmt s st)) = changes_made_vr st"
  "settled_list ss \<Longrightarrow> renamed_vars st = Map.empty \<Longrightarrow>
     fst (VariableRenamer_visit_stmts ss st) = ss \<and>
     renamed_vars (snd (VariableRenamer_visit_stmts ss st)) = Map.empty \<and>
     changes_made_vr (snd (VariableRenamer_visit_stmts ss st)) = changes_made_vr st"
proof (induction s st and ss st rule: VariableRenamer_visit_stmt_VariableRenamer_visit_stmts.induct)
  case (1 name args body l el st)
  then show ?case by (auto simp: Let_def split: prod.splits) 
next
  case (2 targets val l st)
  then show ?case by (simp add: rename_targets_settled visit_expr_empty map_idI)
next
  case (3 v st)
  then show ?case by (cases v) (simp_all add: visit_expr_empty)
next
  case (4 target op val st)
  then show ?case by (simp add: visit_expr_empty)
next
  case (5 target iter body orelse st)
  then show ?case by (auto simp: visit_expr_empty Let_def split: prod.splits) 
next
  case (6 test body orelse st)
  then show ?case by (auto simp: visit_expr_empty Let_def split: prod.splits) 
next
  case (7 test body orelse l st)
  then show ?case by (auto simp: visit_expr_empty Let_def split: prod.splits) 
next
  case (8 e st)
  then show ?case by (simp add: visit_expr_empty)
next
  case (9 st)
  then show ?case by simp
next
  case (10 st)
  then show ?case by simp
next
  case (11 s ss st)
  then show ?case by (auto simp: Let_def split: prod.splits) 
qed

lemma rename_target_ok:
  "table_ok st \<Longrightarrow> settled_target (fst (rename_target t st)) \<and> table_ok (snd (rename_target t st))"
  by (cases t) (auto simp: table_ok_def renameable_def Let_def)

lemma rename_targets_ok:
  "table_ok st \<Longrightarrow>
     list_all settled_target (fst (rename_targets ts st)) \<and> table_ok (snd (rename_targets ts st))"
proof (induction ts arbitrary: st)
  case Nil
  then show ?case by simp
next
  case (Cons t ts)
  from rename_target_ok[OF Cons.prems, of t]
  have a: "settled_target (fst (rename_target t st))" and b: "table_ok (snd (rename_target t st))"
    by simp_all
  from Cons.IH[OF b] a show ?case
    by (simp add: case_prod_beta Let_def)
qed

lemma visit_expr_settled_target:
  "dom rv \<subseteq> {x. renameable x} \<Longrightarrow> settled_target t \<Longrightarrow> settled_target (VariableRenamer_visit_expr rv t)"
  by (cases t) (auto split: option.splits)

lemma visit_ok:
  "table_ok st \<Longrightarrow>
     settled (fst (VariableRenamer_visit_stmt s st)) \<and> table_ok (snd (VariableRenamer_visit_stmt s st))"
  "table_ok st \<Longrightarrow>
     settled_list (fst (VariableRenamer_visit_stmts ss st)) \<and> table_ok (snd (VariableRenamer_visit_stmts ss st))"
proof (induction s st and ss st rule: VariableRenamer_visit_stmt_VariableRenamer_visit_stmts.induct)
  case (1 name args body l el st)
  have "table_ok (st\<lparr>current_function_vars := Some Map.empty\<rparr>)"
    using 1(2) by (simp add: table_ok_def)
  with 1(1) show ?case by (auto simp: Let_def split: prod.splits)
next
  case (2 targets val l st)
  from rename_targets_ok[OF 2, of targets]
  have a: "list_all settled_target (fst (rename_targets targets st))"
    and b: "table_ok (snd (rename_targets targets st))" by simp_all
  from b have d: "dom (renamed_vars (snd (rename_targets targets st))) \<subseteq> {x. renameable x}"
    by (simp add: table_ok_def)
  have "list_all settled_target
          (map (VariableRenamer_visit_expr (renamed_vars (snd (rename_targets targets st))))
             (fst (rename_targets targets st)))"
    using a visit_expr_settled_target[OF d] by (simp add: list_all_iff)
  with b show ?case by (simp add: case_prod_beta Let_def)
next
  case (5 target iter body orelse st)
  then show ?case by (auto simp: Let_def split: prod.splits)
next
  case (6 test body orelse st)
  then show ?case by (auto simp: Let_def split: prod.splits)
next
  case (7 test body orelse l st)
  then show ?case by (auto simp: Let_def split: prod.splits)
next
  case (11 s ss st)
  then show ?case by (auto simp: Let_def split: prod.splits)
qed simp_all

lemma rename_tree_idempotent:
  "rename_tree (fst (rename_tree tree)) = (fst (rename_tree tree), [])"
proof (cases tree)
  case (Module body)
  let ?r = "VariableRenamer_visit_stmts body VariableRenamer_init"
  have ok: "table_ok VariableRenamer_init"
    by (simp add: table_ok_def VariableRenamer_init_def)
  have s: "settled_list (fst ?r)" using visit_ok(2)[OF ok] by simp
  have f: "fst (rename_tree tree) = Module (fst ?r)"
    by (simp add: rename_tree_def Module case_prod_beta)
  have e: "renamed_vars VariableRenamer_init = Map.empty"
    by (simp add: VariableRenamer_init_def)
  from visit_settled(2)[OF s e]
  show ?thesis
    unfolding f by (simp add: rename_tree_def case_prod_beta prod_eq_iff VariableRenamer_init_def)
qed

lemma settled_erase_lines:
  "settled (erase_lines s) = settled s"
  "settled_list (erase_lines_list ss) = settled_list ss"
  by (induction s and ss rule: erase_lines_erase_lines_list.induct) simp_all

lemma rename_tree_settled:
  assumes "erase_positions tree2 = erase_positions (fst (rename_tree tree))"
  shows "rename_tree tree2 = (tree2, [])"
proof -
  obtain body where t: "tree = Module body" by (cases tree)
  obtain body2 where t2: "tree2 = Module body2" by (cases tree2)
  let ?r = "VariableRenamer_visit_stmts body VariableRenamer_init"
  have ok: "table_ok VariableRenamer_init"
    by (simp add: table_ok_def VariableRenamer_init_def)
  have s: "settled_list (fst ?r)" using visit_ok(2)[OF ok] by simp
  have "erase_lines_list body2 = erase_lines_list (fst ?r)"
    using assms by (simp add: t t2 rename_tree_def case_prod_beta)
  then have s2: "settled_list body2"
    using s settled_erase_lines(2)[of body2] settled_erase_lines(2)[of "fst ?r"] by simp
  have e: "renamed_vars VariableRenamer_init = Map.empty"
    by (simp add: VariableRenamer_init_def)
  from visit_settled(2)[OF s2 e]
  show ?thesis
    by (simp add: t2 rename_tree_def case_prod_beta prod_eq_iff VariableRenamer_init_def)
qed

text \<open>
  The text \<open>q = 1\<close> followed by \<open>if (q, 2): pass\<close> parses. The first application
  renames \<open>q\<close>; the text it returns does not parse, so the second application returns
  it with one diagnostic in its change list instead of none.
\<close>

theorem rename_twice_counterexample:
  "rename_unclear_variables example_parse example_to_source ''q = 1\<newline>if (q, 2):\<newline>    pass''
     = (''value_q = 1\<newline>if value_q, 2:\<newline>    pass\<newline>'',
        [''Renamed variable 'q' to 'value_q'' @ [CHR 0x27]]) \<and>
   rename_unclear_variables example_parse example_to_source
       ''value_q = 1\<newline>if value_q, 2:\<newline>    pass\<newline>''
     = (''value_q = 1\<newline>if value_q, 2:\<newline>    pass\<newline>'',
        [''Could not rename variables: invalid syntax (<unknown>, line 2)''])"
  by (simp add: rename_unclear_variables_def example_parse_def example_to_source_def rename_tree_def
      VariableRenamer_init_def rename_skip_list_def renamed_message_def Let_def)

text \<open>
  C8 (amended). Renaming a renamed tree changes nothing and reports nothing, for every
  tree: each assignment target the first pass leaves behind is outside the rule's reach
  or carries the seven-character new name. For a text that parses, when the text of the
  first application parses again to the renamed tree up to source positions and that
  tree serializes to the same text, applying \<^verbatim>\<open>rename_unclear_variables\<close> to its own
  output returns that output with an empty change list.
\<close>

theorem rename_variables_idempotent:
  "parse code = Inr tree \<Longrightarrow>
   parse (to_source (fst (rename_tree tree))) = Inr tree2 \<Longrightarrow>
   erase_positions tree2 = erase_positions (fst (rename_tree tree)) \<Longrightarrow>
   to_source tree2 = to_source (fst (rename_tree tree)) \<Longrightarrow>
     rename_tree (fst (rename_tree tree)) = (fst (rename_tree tree), []) \<and>
     rename_tree tree2 = (tree2, []) \<and>
     rename_unclear_variables parse to_source (fst (rename_unclear_variables parse to_source code))
       = (fst (rename_unclear_variables parse to_source code), [])"
proof -
  assume p: "parse code = Inr tree"
    and q: "parse (to_source (fst (rename_tree tree))) = Inr tree2"
    and e: "erase_positions tree2 = erase_positions (fst (rename_tree tree))"
    and t: "to_source tree2 = to_source (fst (rename_tree tree))"
  have f: "fst (rename_unclear_variables parse to_source code) = to_source (fst (rename_tree tree))"
    using p by (simp add: rename_unclear_variables_def case_prod_beta)
  have r2: "rename_tree tree2 = (tree2, [])"
    using rename_tree_settled[of tree2 tree] e by simp
  have "rename_unclear_variables parse to_source (to_source (fst (rename_tree tree)))
          = (to_source (fst (rename_tree tree)), [])"
    using q r2 t by (simp add: rename_unclear_variables_def)
  then show ?thesis
    using rename_tree_idempotent[of tree] r2 f by simp
qed

theorem rename_variables_idempotent_witness:
  "rename_unclear_variables example_parse example_to_source ''\<newline>q = 1''
     = (''value_q = 1\<newline>'', [''Renamed variable 'q' to 'value_q'' @ [CHR 0x27]]) \<and>
   rename_unclear_variables example_parse example_to_source ''value_q = 1\<newline>''
     = (''value_q = 1\<newline>'', [])"
proof -
  let ?t = "Module [Assign [Name ''q'' Store] (Constant (CInt 1)) 2]"
  let ?t1 = "Module [Assign [Name ''value_q'' Store] (Constant (CInt 1)) 2]"
  let ?t2 = "Module [Assign [Name ''value_q'' Store] (Constant (CInt 1)) 1]"
  have r: "rename_tree ?t = (?t1, [''Renamed variable 'q' to 'value_q'' @ [CHR 0x27]])"
    by (simp add: rename_tree_def VariableRenamer_init_def rename_skip_list_def renamed_message_def Let_def)
  have p: "example_parse ''\<newline>q = 1'' = Inr ?t"
    by (simp add: example_parse_def)
  have ts1: "example_to_source ?t1 = ''value_q = 1\<newline>''"
    by (simp add: example_to_source_def)
  have ts2: "example_to_source ?t2 = ''value_q = 1\<newline>''"
    by (simp add: example_to_source_def)
  have q: "example_parse (example_to_source (fst (rename_tree ?t))) = Inr ?t2"
    by (simp add: r ts1 example_parse_def)
  have e: "erase_positions ?t2 = erase_positions (fst (rename_tree ?t))"
    by (simp add: r)
  have t: "example_to_source ?t2 = example_to_source (fst (rename_tree ?t))"
    by (simp add: r ts1 ts2)
  have one: "rename_unclear_variables example_parse example_to_source ''\<newline>q = 1''
     = (''value_q = 1\<newline>'', [''Renamed variable 'q' to 'value_q'' @ [CHR 0x27]])"
    by (simp add: rename_unclear_variables_def p r ts1)
  from rename_variables_idempotent[of example_parse "''\<newline>q = 1''" ?t example_to_source ?t2, OF p q e t]
  show ?thesis
    unfolding one by simp
qed

section \<open>The analyzer's complexity score\<close>

lemma fold_add: "fold (\<lambda>child count. count + f child) xs (a::int) = a + sum_list (map f xs)"
  by (induction xs arbitrary: a) simp_all

lemma ccc_other:
  "check_conditional_complexity (BoolopNode b) = 0"
  "check_conditional_complexity (OperatorNode o1) = 0"
  "check_conditional_complexity (UnaryopNode u) = 0"
  "check_conditional_complexity (CmpopNode c) = 0"
  "check_conditional_complexity (ContextNode x) = 0"
  by (simp_all add: check_conditional_complexity.simps)

lemma sum_map_cong:
  "(\<And>x. x \<in> set xs \<Longrightarrow> f x = g x) \<Longrightarrow> sum_list (map f xs) = (sum_list (map g xs) :: int)"
  by (induction xs) simp_all

lemma ccc_score: "check_conditional_complexity (ExprNode e) = complexity_score e"
proof (induction e)
  case (BoolOp op vals)
  have a: "sum_list (map (check_conditional_complexity \<circ> ExprNode) vals)
         = sum_list (map complexity_score vals)"
    by (rule sum_map_cong) (simp add: BoolOp)
  show ?case
    by (simp add: check_conditional_complexity.simps[of "ExprNode (BoolOp op vals)"] fold_add ccc_other a)
next
  case (Compare l ops comparators)
  have a: "sum_list (map (check_conditional_complexity \<circ> ExprNode) comparators)
         = sum_list (map complexity_score comparators)"
    by (rule sum_map_cong) (simp add: Compare)
  have b: "sum_list (map (check_conditional_complexity \<circ> CmpopNode) ops) = 0"
    by (induction ops) (simp_all add: ccc_other)
  show ?case
    by (simp add: check_conditional_complexity.simps[of "ExprNode (Compare l ops comparators)"]
        fold_add a b Compare.IH(1))
qed (simp_all add: check_conditional_complexity.simps)

lemma fold_check_unclear_cc:
  "complex_conditionals (get_analysis (fold (check_unclear l) targets st))
     = complex_conditionals (get_analysis st)"
proof (induction targets arbitrary: st)
  case (Cons t ts)
  have "complex_conditionals (get_analysis (check_unclear l t st)) = complex_conditionals (get_analysis st)"
    by (cases t) simp_all
  with Cons show ?case by simp
qed simp

lemma findings_of_append: "findings_of (xs @ ys) = findings_of xs @ findings_of ys"
  by (simp add: findings_of_def)

lemma analyzer_conditionals:
  "complex_conditionals (get_analysis (CodeAnalyzer_visit_stmt s st))
     = complex_conditionals (get_analysis st) @ findings_of (if_statements s)"
  "complex_conditionals (get_analysis (CodeAnalyzer_visit_stmts ss st))
     = complex_conditionals (get_analysis st) @ findings_of (if_statements_list ss)"
proof (induction s st and ss st rule: CodeAnalyzer_visit_stmt_CodeAnalyzer_visit_stmts.induct)
  case (1 name args body l el st)
  then show ?case by (simp add: Let_def)
next
  case (2 targets val l st)
  show ?case by (simp add: fold_check_unclear_cc findings_of_def)
next
  case (3 test body orelse l st)
  then show ?case by (simp add: Let_def findings_of_append ccc_score) (simp add: findings_of_def)
next
  case (4 target iter body orelse st)
  then show ?case by (simp add: findings_of_append)
next
  case (5 test body orelse st)
  then show ?case by (simp add: findings_of_append)
next
  case (11 s ss st)
  then show ?case by (simp add: findings_of_append)
qed (simp_all add: findings_of_def)

text \<open>
  C7. The score \<^verbatim>\<open>_check_conditional_complexity\<close> computes for a test is the
  specification's recursive count: a boolean operator or a comparison counts one plus the
  scores of its children, every other node counts nothing. The analyzer's
  \<^verbatim>\<open>complex_conditionals\<close> list holds, in pre-order, exactly the \<^verbatim>\<open>if\<close> statements
  whose score is greater than 2, each with its line and that score.
\<close>

theorem conditional_complexity_spec:
  "check_conditional_complexity (ExprNode test) = complexity_score test \<and>
   complex_conditionals (get_analysis (CodeAnalyzer_visit (Module body) CodeAnalyzer_init))
     = map (\<lambda>p. (fst p, complexity_score (snd p)))
         (filter (\<lambda>p. complexity_score (snd p) > 2) (if_statements_list body)) \<and>
   (parse code = Inr (Module body) \<longrightarrow>
      complex_conditionals (analyze_code parse code)
        = map (\<lambda>p. (fst p, complexity_score (snd p)))
            (filter (\<lambda>p. complexity_score (snd p) > 2) (if_statements_list body)))"
proof -
  have t: "complex_conditionals (get_analysis (CodeAnalyzer_visit (Module body) CodeAnalyzer_init))
     = findings_of (if_statements_list body)"
    using analyzer_conditionals(2)[of body CodeAnalyzer_init]
    by (simp add: CodeAnalyzer_init_def)
  show ?thesis
    using t by (auto simp: ccc_score findings_of_def analyze_code_def)
qed

theorem conditional_complexity_spec_witness:
  "complex_conditionals (analyze_code
      (\<lambda>s. Inr (Module
         [If_stmt (BoolOp And [Compare (Name ''a'' Load) [Gt] [Constant (CInt 1)],
                               Compare (Name ''b'' Load) [Lt] [Constant (CInt 2)]]) [Pass] [] 1,
          If_stmt (Name ''a'' Load) [Pass] [] 3]))
      ''if a > 1 and b < 2:\<newline>    pass\<newline>if a:\<newline>    pass'')
   = [(1, 3)]"
  using conditional_complexity_spec
    [of "Name ''a'' Load"
        "[If_stmt (BoolOp And [Compare (Name ''a'' Load) [Gt] [Constant (CInt 1)],
                               Compare (Name ''b'' Load) [Lt] [Constant (CInt 2)]]) [Pass] [] 1,
          If_stmt (Name ''a'' Load) [Pass] [] 3]"
        "\<lambda>s. Inr (Module
         [If_stmt (BoolOp And [Compare (Name ''a'' Load) [Gt] [Constant (CInt 1)],
                               Compare (Name ''b'' Load) [Lt] [Constant (CInt 2)]]) [Pass] [] 1,
          If_stmt (Name ''a'' Load) [Pass] [] 3])"
        "''if a > 1 and b < 2:\<newline>    pass\<newline>if a:\<newline>    pass''"]
  by simp

section \<open>Unparseable input\<close>

lemma fst_extract_duplicate: "fst (extract_duplicate_functions code) = code"
  by (simp add: extract_duplicate_functions_def Let_def)

lemma rules_on_parse_failure:
  assumes "parse code = Inl e"
  shows "fst (rename_unclear_variables parse to_source code) = code"
    and "fst (simplify_complex_conditionals parse to_source code) = code"
    and "fst (extract_method parse to_source code) = code"
    and "fst (remove_dead_code parse to_source code) = code"
  using assms
  by (simp_all add: rename_unclear_variables_def simplify_complex_conditionals_def
      extract_method_def remove_dead_code_def)

lemma fst_run_if: "fst (rule (fst p)) = fst p \<Longrightarrow> fst (run_if b rule p) = fst p"
  by (simp add: run_if_def case_prod_beta)

lemma fst_apply_selected_rules:
  assumes "parse code = Inl e"
  shows "fst (apply_selected_rules parse to_source opts code) = code"
proof -
  note r = rules_on_parse_failure[of parse code e to_source, OF assms]
  let ?p1 = "run_if (''rename_variables'' \<in> set opts) (rename_unclear_variables parse to_source) (code, [])"
  let ?p2 = "run_if (''extract_duplicate'' \<in> set opts) extract_duplicate_functions ?p1"
  let ?p3 = "run_if (''simplify_conditionals'' \<in> set opts) (simplify_complex_conditionals parse to_source) ?p2"
  let ?p4 = "run_if (''extract_method'' \<in> set opts) (extract_method parse to_source) ?p3"
  let ?p5 = "run_if (''remove_dead_code'' \<in> set opts) (remove_dead_code parse to_source) ?p4"
  have 1: "fst ?p1 = code" using fst_run_if[of "rename_unclear_variables parse to_source" "(code, [])"] r(1) by simp
  have 2: "fst ?p2 = code" using fst_run_if[of extract_duplicate_functions ?p1] 1 fst_extract_duplicate by simp
  have 3: "fst ?p3 = code" using fst_run_if[of "simplify_complex_conditionals parse to_source" ?p2] 2 r(2) by simp
  have 4: "fst ?p4 = code" using fst_run_if[of "extract_method parse to_source" ?p3] 3 r(3) by simp
  have 5: "fst ?p5 = code" using fst_run_if[of "remove_dead_code parse to_source" ?p4] 4 r(4) by simp
  show ?thesis unfolding apply_selected_rules_def Let_def using 5 .
qed

text \<open>
  C9. When the parser raises \<^verbatim>\<open>SyntaxError\<close> on the source text, the handler still
  returns a response: the refactored text is the original text, the suggestions are the
  single error entry, and the three finding lists of the analysis are empty.
\<close>

theorem syntax_error_response:
  "parse code = Inl (SyntaxError msg) \<Longrightarrow>
     original_code (refactor_code parse to_source code refactor_options) = code \<and>
     refactored_code (refactor_code parse to_source code refactor_options) = code \<and>
     suggestions (refactor_code parse to_source code refactor_options)
       = [cross_mark @ '' Syntax error: '' @ msg] \<and>
     long_functions (analyze_code parse code) = [] \<and>
     unclear_variables (analyze_code parse code) = [] \<and>
     complex_conditionals (analyze_code parse code) = []"
proof -
  assume p: "parse code = Inl (SyntaxError msg)"
  have a: "analyze_code parse code = error_analysis (''Syntax error: '' @ msg)"
    using p by (simp add: analyze_code_def)
  have s: "get_suggestions (error_analysis (''Syntax error: '' @ msg))
             = [cross_mark @ '' Syntax error: '' @ msg]"
    by (simp add: get_suggestions_def error_analysis_def)
  from fst_apply_selected_rules[of parse code "SyntaxError msg" to_source refactor_options, OF p] a s
  show ?thesis
    by (simp add: refactor_code_def case_prod_beta error_analysis_def Let_def)
qed

theorem syntax_error_response_witness:
  "sample_parse ''print('' = Inl (SyntaxError ''invalid syntax'') \<and>
   refactor_code sample_parse sample_to_source ''print('' [''rename_variables'', ''remove_dead_code'']
     = \<lparr>original_code = ''print('', refactored_code = ''print('',
         changes_made = [''Could not rename variables: invalid syntax'',
                         ''Could not remove dead code: invalid syntax''],
         suggestions = [cross_mark @ '' Syntax error: invalid syntax'']\<rparr>"
proof -
  have p: "sample_parse ''print('' = Inl (SyntaxError ''invalid syntax'')"
    by (simp add: sample_parse_def)
  have c: "changes_made (refactor_code sample_parse sample_to_source ''print(''
              [''rename_variables'', ''remove_dead_code''])
         = [''Could not rename variables: invalid syntax'',
            ''Could not remove dead code: invalid syntax'']"
    by (simp add: refactor_code_def apply_selected_rules_def run_if_def Let_def p
        rename_unclear_variables_def remove_dead_code_def)
  from syntax_error_response[of sample_parse "''print(''" "''invalid syntax''" sample_to_source
      "[''rename_variables'', ''remove_dead_code'']", OF p] c p
  show ?thesis by simp
qed

section \<open>The order of the rules\<close>

text \<open>
  The caller asks for \<^verbatim>\<open>remove_dead_code\<close>, then \<^verbatim>\<open>rename_variables\<close>, on \<open>q = 1\<close>.
  The handler renames first, so the dead-code rule reports the new name and its message
  comes second; in the caller's order it would report \<open>q\<close> and come first.
\<close>

theorem rule_order_counterexample:
  "apply_selected_rules sample_parse sample_to_source [''remove_dead_code'', ''rename_variables''] ''q = 1''
     = (''value_q = 1\<newline>'',
        [''Renamed variable 'q' to 'value_q'' @ [CHR 0x27], ''Found unused variable: value_q'']) \<and>
   apply_in_order sample_parse sample_to_source [''remove_dead_code'', ''rename_variables''] ''q = 1''
     = (''value_q = 1\<newline>'',
        [''Found unused variable: q'', ''Renamed variable 'q' to 'value_q'' @ [CHR 0x27]]) \<and>
   apply_selected_rules sample_parse sample_to_source [''remove_dead_code'', ''rename_variables''] ''q = 1''
     \<noteq> apply_in_order sample_parse sample_to_source [''remove_dead_code'', ''rename_variables''] ''q = 1''"
  by (simp add: apply_selected_rules_def apply_in_order_def apply_rule_def rule_of_def run_if_def Let_def
      rename_unclear_variables_def remove_dead_code_def sample_parse_def sample_to_source_def
      tree_q_def tree_value_q_def rename_tree_def dead_code_changes_def VariableRenamer_init_def
      DeadCodeCleaner_init_def rename_skip_list_def renamed_message_def unused_message_def)

text \<open>
  C2 (amended). The handler runs exactly the rules whose identifiers occur in the
  caller's list, each once, in the handler's own fixed order (rename\_variables,
  extract\_duplicate, simplify\_conditionals, extract\_method, remove\_dead\_code), each
  rule receiving the text the previous one produced.
\<close>

theorem rules_run_in_internal_order:
  "apply_selected_rules parse to_source refactor_options code
     = apply_in_order parse to_source
         (filter (\<lambda>rule_id. rule_id \<in> set refactor_options) internal_order) code \<and>
   refactored_code (refactor_code parse to_source code refactor_options)
     = fst (apply_in_order parse to_source
         (filter (\<lambda>rule_id. rule_id \<in> set refactor_options) internal_order) code) \<and>
   changes_made (refactor_code parse to_source code refactor_options)
     = snd (apply_in_order parse to_source
         (filter (\<lambda>rule_id. rule_id \<in> set refactor_options) internal_order) code)"
proof -
  have a: "apply_selected_rules parse to_source refactor_options code
     = apply_in_order parse to_source
         (filter (\<lambda>rule_id. rule_id \<in> set refactor_options) internal_order) code"
    by (simp add: apply_selected_rules_def apply_in_order_def internal_order_def apply_rule_def
        rule_of_def Let_def run_if_def)
  show ?thesis
    unfolding a[symmetric] by (simp add: refactor_code_def case_prod_beta Let_def)
qed

section \<open>The rules on small programs\<close>

text \<open>
  C1. Two functions: \<open>f\<close> assigns \<open>q = 1\<close>, \<open>g\<close> returns \<open>q\<close>. The rename made in
  \<open>f\<close> rewrites the reference in \<open>g\<close>: \<^verbatim>\<open>visit_FunctionDef\<close> resets
  \<^verbatim>\<open>current_function_vars\<close>, which nothing reads, and leaves \<^verbatim>\<open>renamed_vars\<close> as it was.
\<close>

theorem rename_crosses_functions:
  "rename_tree (Module
     [FunctionDef ''f'' [] [Assign [Name ''q'' Store] (Constant (CInt 1)) 2] 1 (Some 2),
      FunctionDef ''g'' [] [Return (Some (Name ''q'' Load))] 3 (Some 4)])
   = (Module
     [FunctionDef ''f'' [] [Assign [Name ''value_q'' Store] (Constant (CInt 1)) 2] 1 (Some 2),
      FunctionDef ''g'' [] [Return (Some (Name ''value_q'' Load))] 3 (Some 4)],
      [''Renamed variable 'q' to 'value_q'' @ [CHR 0x27]])"
  by (simp add: rename_tree_def VariableRenamer_init_def rename_skip_list_def renamed_message_def Let_def)

text \<open>
  C3. At module level the test of \<open>if a and b and c\<close> is replaced by the name
  \<open>should_execute_1\<close>, and no assignment to that name is put in the module: only
  \<^verbatim>\<open>visit_FunctionDef\<close> inserts the collected assignments. The same statement inside a
  function gets its assignment at the head of the function body.
\<close>

theorem module_level_if_not_hoisted:
  "simplify_tree (Module
     [If_stmt (BoolOp And [Name ''a'' Load, Name ''b'' Load, Name ''c'' Load]) [Pass] [] 1])
   = (Module [If_stmt (Name ''should_execute_1'' Load) [Pass] [] 1],
      [''Extracted complex conditional to variable 'should_execute_1'' @ [CHR 0x27]]) \<and>
   simplify_tree (Module
     [FunctionDef ''f'' []
        [If_stmt (BoolOp And [Name ''a'' Load, Name ''b'' Load, Name ''c'' Load]) [Pass] [] 2]
        1 (Some 3)])
   = (Module
     [FunctionDef ''f'' []
        [Assign [Name ''should_execute_1'' Store]
           (BoolOp And [Name ''a'' Load, Name ''b'' Load, Name ''c'' Load]) 2,
         If_stmt (Name ''should_execute_1'' Load) [Pass] [] 2]
        1 (Some 3)],
      [''Extracted complex conditional to variable 'should_execute_1'' @ [CHR 0x27]])"
  by (simp add: simplify_tree_def ConditionalSimplifier_init_def extract_test_def extracted_message_def
      str_of_nat.simps digit_char_def Let_def)

text \<open>
  C5. For \<open>q = 1\<close> followed by \<open>print(q)\<close> the rule reports \<open>q\<close> as unused: the
  assignment is checked against the names loaded before it, and the load comes after.
\<close>

theorem later_use_flagged_unused:
  "dead_code_changes (Module
     [Assign [Name ''q'' Store] (Constant (CInt 1)) 1,
      Expr (Call (Name ''print'' Load) [Name ''q'' Load])])
   = [''Found unused variable: q'']"
  by (simp add: dead_code_changes_def DeadCodeCleaner_init_def unused_message_def)

text \<open>
  The input \<open>a = 1\<close>: the name \<open>a\<close> is on the rule's skip list, so nothing is renamed
  and nothing is reported.
\<close>

theorem rename_a_counterexample:
  "rename_tree (Module [Assign [Name ''a'' Store] (Constant (CInt 1)) 1])
     = (Module [Assign [Name ''a'' Store] (Constant (CInt 1)) 1], []) \<and>
   fst (rename_tree (Module [Assign [Name ''a'' Store] (Constant (CInt 1)) 1]))
     \<noteq> Module [Assign [Name ''value_a'' Store] (Constant (CInt 1)) 1] \<and>
   ''Renamed variable 'a' to 'value_a'' @ [CHR 0x27]
     \<notin> set (snd (rename_tree (Module [Assign [Name ''a'' Store] (Constant (CInt 1)) 1])))"
  by (simp add: rename_tree_def VariableRenamer_init_def rename_skip_list_def Let_def)

text \<open>
  C4 (amended). A module that is one assignment of a constant to a name: when the name
  is one character long and not on the skip list (as \<open>q\<close> is), the output assigns to
  \<open>value_\<close> followed by the name and the change list is the one rename message; otherwise
  (as for \<open>a\<close>, which is on the list) the tree is unchanged and the change list is empty.
\<close>

theorem rename_single_assignment:
  "rename_tree (Module [Assign [Name v Store] (Constant c) l])
     = (if length v = 1 \<and> v \<notin> set rename_skip_list
        then (Module [Assign [Name (''value_'' @ v) Store] (Constant c) l],
              [''Renamed variable '' @ [CHR 0x27] @ v @ [CHR 0x27] @ '' to ''
                 @ [CHR 0x27] @ ''value_'' @ v @ [CHR 0x27]])
        else (Module [Assign [Name v Store] (Constant c) l], [])) \<and>
   ''a'' \<in> set rename_skip_list \<and> ''q'' \<notin> set rename_skip_list"
  by (simp add: rename_tree_def VariableRenamer_init_def renamed_message_def Let_def)
     (simp add: rename_skip_list_def)

theorem rename_single_assignment_witness:
  "rename_tree (Module [Assign [Name ''a'' Store] (Constant (CInt 1)) 1])
     = (Module [Assign [Name ''a'' Store] (Constant (CInt 1)) 1], []) \<and>
   rename_tree (Module [Assign [Name ''q'' Store] (Constant (CInt 1)) 1])
     = (Module [Assign [Name ''value_q'' Store] (Constant (CInt 1)) 1],
        [''Renamed variable 'q' to 'value_q'' @ [CHR 0x27]])"
  using rename_single_assignment[of "''a''" "CInt 1" 1] rename_single_assignment[of "''q''" "CInt 1" 1]
  by simp

section \<open>The value of a renamed assignment\<close>

lemma rename_target_keeps:
  "renamed_vars st x = Some (''value_'' @ x) \<Longrightarrow>
     renamed_vars (snd (rename_target t st)) x = Some (''value_'' @ x)"
  by (cases t) (auto simp: Let_def)

lemma rename_targets_keeps:
  "renamed_vars st x = Some (''value_'' @ x) \<Longrightarrow>
     renamed_vars (snd (rename_targets ts st)) x = Some (''value_'' @ x)"
proof (induction ts arbitrary: st)
  case (Cons t ts)
  from Cons.IH[OF rename_target_keeps[OF Cons.prems, of t]]
  show ?case by (simp add: case_prod_beta)
qed simp

lemma rename_targets_records:
  "Name x ctx \<in> set ts \<Longrightarrow> length x = 1 \<Longrightarrow> x \<notin> set rename_skip_list \<Longrightarrow>
     renamed_vars (snd (rename_targets ts st)) x = Some (''value_'' @ x)"
proof (induction ts arbitrary: st)
  case (Cons t ts)
  show ?case
  proof (cases "t = Name x ctx")
    case True
    have "renamed_vars (snd (rename_target t st)) x = Some (''value_'' @ x)"
      using True Cons.prems(2,3) by (simp add: Let_def)
    from rename_targets_keeps[OF this, of ts] show ?thesis
      by (simp add: case_prod_beta)
  next
    case False
    with Cons.prems(1) have "Name x ctx \<in> set ts" by simp
    from Cons.IH[OF this Cons.prems(2,3)] show ?thesis
      by (simp add: case_prod_beta)
  qed
qed simp

lemma rename_target_prefixed:
  "prefixed_table (renamed_vars st) \<Longrightarrow> prefixed_table (renamed_vars (snd (rename_target t st)))"
  by (cases t) (auto simp: prefixed_table_def Let_def ran_def)

lemma rename_targets_prefixed:
  "prefixed_table (renamed_vars st) \<Longrightarrow> prefixed_table (renamed_vars (snd (rename_targets ts st)))"
proof (induction ts arbitrary: st)
  case (Cons t ts)
  from Cons.IH[OF rename_target_prefixed[OF Cons.prems, of t]]
  show ?case by (simp add: case_prod_beta)
qed simp

lemma visit_expr_no_old_load:
  "rv x = Some y \<Longrightarrow> prefixed_table rv \<Longrightarrow> length x = 1 \<Longrightarrow>
     x \<notin> load_names (VariableRenamer_visit_expr rv e)"
  by (induction e) (auto simp: prefixed_table_def ran_def split: option.splits)

lemma visit_expr_new_load:
  "rv x = Some y \<Longrightarrow> x \<in> load_names e \<Longrightarrow> y \<in> load_names (VariableRenamer_visit_expr rv e)"
  by (induction e) (auto split: option.splits if_splits)

text \<open>
  C10. When a target of an assignment is a one-character name \<open>x\<close> outside the skip
  list, the table maps \<open>x\<close> to \<open>value_x\<close> before the value is visited: the value of the
  resulting assignment is the old value visited with the final table, it loads \<open>x\<close>
  nowhere, and it loads \<open>value_x\<close> wherever the old value loaded \<open>x\<close>. (The table is
  assumed to hold no one-character new name, as every table the visitor builds does.)
  So \<open>q = q + 1\<close> becomes \<open>value_q = value_q + 1\<close>.
\<close>

theorem assign_value_sees_rename:
  "Name x ctx \<in> set targets \<Longrightarrow> length x = 1 \<Longrightarrow> x \<notin> set rename_skip_list \<Longrightarrow>
   prefixed_table (renamed_vars st) \<Longrightarrow>
     renamed_vars (snd (VariableRenamer_visit_stmt (Assign targets val l) st)) x = Some (''value_'' @ x) \<and>
     (\<exists>targets'. fst (VariableRenamer_visit_stmt (Assign targets val l) st)
        = Assign targets'
            (VariableRenamer_visit_expr
               (renamed_vars (snd (VariableRenamer_visit_stmt (Assign targets val l) st))) val) l) \<and>
     x \<notin> load_names
           (VariableRenamer_visit_expr
              (renamed_vars (snd (VariableRenamer_visit_stmt (Assign targets val l) st))) val) \<and>
     (x \<in> load_names val \<longrightarrow>
        ''value_'' @ x \<in> load_names
           (VariableRenamer_visit_expr
              (renamed_vars (snd (VariableRenamer_visit_stmt (Assign targets val l) st))) val))"
proof -
  assume t: "Name x ctx \<in> set targets" and x: "length x = 1" "x \<notin> set rename_skip_list"
    and pt: "prefixed_table (renamed_vars st)"
  let ?st1 = "snd (rename_targets targets st)"
  have s: "snd (VariableRenamer_visit_stmt (Assign targets val l) st) = ?st1"
    by (simp add: case_prod_beta Let_def)
  have f: "fst (VariableRenamer_visit_stmt (Assign targets val l) st)
        = Assign (map (VariableRenamer_visit_expr (renamed_vars ?st1)) (fst (rename_targets targets st)))
            (VariableRenamer_visit_expr (renamed_vars ?st1) val) l"
    by (simp add: case_prod_beta Let_def)
  have r: "renamed_vars ?st1 x = Some (''value_'' @ x)"
    using rename_targets_records[OF t x] .
  have p: "prefixed_table (renamed_vars ?st1)"
    using rename_targets_prefixed[OF pt] .
  have n: "x \<notin> load_names (VariableRenamer_visit_expr (renamed_vars ?st1) val)"
    using visit_expr_no_old_load[of "renamed_vars ?st1" x "''value_'' @ x" val] r p x(1) by simp
  have y: "x \<in> load_names val \<longrightarrow>
      ''value_'' @ x \<in> load_names (VariableRenamer_visit_expr (renamed_vars ?st1) val)"
    using visit_expr_new_load[of "renamed_vars ?st1" x "''value_'' @ x" val] r by simp
  show ?thesis
    unfolding s using f r n y by blast
qed

theorem assign_value_sees_rename_witness:
  "VariableRenamer_visit_stmt
     (Assign [Name ''q'' Store] (BinOp (Name ''q'' Load) Add (Constant (CInt 1))) 1) VariableRenamer_init
   = (Assign [Name ''value_q'' Store] (BinOp (Name ''value_q'' Load) Add (Constant (CInt 1))) 1,
      \<lparr>changes_made_vr = [''Renamed variable 'q' to 'value_q'' @ [CHR 0x27]],
        renamed_vars = [''q'' \<mapsto> ''value_q''], current_function_vars = None\<rparr>) \<and>
   ''q'' \<notin> load_names (VariableRenamer_visit_expr [''q'' \<mapsto> ''value_q'']
                           (BinOp (Name ''q'' Load) Add (Constant (CInt 1)))) \<and>
   ''value_q'' \<in> load_names (VariableRenamer_visit_expr [''q'' \<mapsto> ''value_q'']
                           (BinOp (Name ''q'' Load) Add (Constant (CInt 1))))"
proof -
  let ?a = "Assign [Name ''q'' Store] (BinOp (Name ''q'' Load) Add (Constant (CInt 1))) 1"
  have e: "VariableRenamer_visit_stmt ?a VariableRenamer_init
   = (Assign [Name ''value_q'' Store] (BinOp (Name ''value_q'' Load) Add (Constant (CInt 1))) 1,
      \<lparr>changes_made_vr = [''Renamed variable 'q' to 'value_q'' @ [CHR 0x27]],
        renamed_vars = [''q'' \<mapsto> ''value_q''], current_function_vars = None\<rparr>)"
    by (simp add: VariableRenamer_init_def rename_skip_list_def renamed_message_def Let_def)
  have h: "Name ''q'' Store \<in> set [Name ''q'' Store]" "length ''q'' = 1"
    "''q'' \<notin> set rename_skip_list" "prefixed_table (renamed_vars VariableRenamer_init)"
    by (simp_all add: rename_skip_list_def prefixed_table_def VariableRenamer_init_def)
  from assign_value_sees_rename[OF h, of "BinOp (Name ''q'' Load) Add (Constant (CInt 1))" 1]
  show ?thesis
    unfolding e by simp
qed

end
